theory Spec2Isabelle
  imports Main
begin

section \<open>Go strings and the library functions the client calls\<close>

text \<open>
  A Go string is a sequence of bytes, so it is a \<open>string\<close> (a list of \<open>char\<close>):
  \<open>len(s)\<close> is \<open>length s\<close> and \<open>s[:n]\<close> is \<open>take n s\<close> (for \<open>n \<le> len(s)\<close>).
\<close>

fun hasPrefix :: "string \<Rightarrow> string \<Rightarrow> bool" where
  "hasPrefix s [] = True"
| "hasPrefix [] (p # ps) = False"
| "hasPrefix (c # s) (p # ps) = (c = p \<and> hasPrefix s ps)"

text \<open>\<open>strings.Contains(s, substr)\<close>: \<open>substr\<close> occurs in \<open>s\<close> at some offset.\<close>

fun strings_Contains :: "string \<Rightarrow> string \<Rightarrow> bool" where
  "strings_Contains [] substr = (substr = [])"
| "strings_Contains (c # s) substr = (hasPrefix (c # s) substr \<or> strings_Contains s substr)"

text \<open>
  \<open>strings.ToLower\<close> belongs to the Go library and follows the Unicode case tables
  (it maps the Kelvin sign U+212A to \<open>k\<close>, for one): the functions that call it take
  it as the parameter \<open>strings_ToLower\<close>. On a string of ASCII bytes it is
  \<open>ascii_ToLower\<close>: \<open>'A'..'Z'\<close> are moved by \<open>'a' - 'A' = 32\<close>, every other byte is
  kept. \<open>ascii_ToLower\<close> stands for it in the examples, whose header names are ASCII.
\<close>

definition ToLower_byte :: "char \<Rightarrow> char" where
  "ToLower_byte c =
     (if 65 \<le> (of_char c :: nat) \<and> (of_char c :: nat) \<le> 90
      then char_of (of_char c + (32 :: nat)) else c)"

definition ascii_ToLower :: "string \<Rightarrow> string" where
  "ascii_ToLower s = map ToLower_byte s"

text \<open>The verb \<open>%d\<close> of \<open>fmt.Sprintf\<close>: a decimal numeral, with a sign when negative.\<close>

fun decimal :: "nat \<Rightarrow> string" where
  "decimal n =
     (if n < 10 then [char_of (48 + n)]
      else decimal (n div 10) @ [char_of (48 + n mod 10)])"

declare decimal.simps [simp del]

definition Sprintf_d :: "int \<Rightarrow> string" where
  "Sprintf_d i = (if i < 0 then CHR ''-'' # decimal (nat (- i)) else decimal (nat i))"

text \<open>Reading a decimal numeral back, to state that \<open>Sprintf_d\<close> loses nothing.\<close>

definition digit_value :: "char \<Rightarrow> nat" where
  "digit_value c = of_char c - 48"

definition decimal_value :: "string \<Rightarrow> nat" where
  "decimal_value s = foldl (\<lambda>acc c. 10 * acc + digit_value c) 0 s"

text \<open>
  Go's \<open>int\<close> on a 64-bit platform: \<open>x + y\<close> wraps around silently. \<open>int64_wrap\<close>
  brings a mathematical integer back into \<open>[-2^63, 2^63)\<close>.
\<close>

definition MaxInt64 :: int where
  "MaxInt64 = 9223372036854775807"

definition int64_wrap :: "int \<Rightarrow> int" where
  "int64_wrap x = (x + 9223372036854775808) mod 18446744073709551616 - 9223372036854775808"

section \<open>Errors\<close>

text \<open>
  A Go \<open>error\<close> is \<open>nil\<close> (\<open>None\<close>) or a value with a message. The two errors of the
  \<open>context\<close> package are kept apart from the errors that are known by their message
  only (\<open>errors.New\<close>, \<open>fmt.Errorf\<close>, and whatever the transport reports).
\<close>

datatype error = DeadlineExceeded | Canceled | ErrorString string

fun Error :: "error \<Rightarrow> string" where
  "Error DeadlineExceeded = ''context deadline exceeded''"
| "Error Canceled = ''context canceled''"
| "Error (ErrorString s) = s"

section \<open>Configuration (config.go)\<close>

record TLSConfig =
  InsecureSkipVerify :: bool
  RootCAPath :: string
  CertFile :: string
  KeyFile :: string

text \<open>A \<open>time.Duration\<close> is a number of nanoseconds.\<close>

definition Second :: int where
  "Second = 1000000000"

record TimeoutConfig =
  DialTimeout :: int
  TLSHandshakeTimeout :: int
  ResponseHeaderTimeout :: int
  IdleConnTimeout :: int
  ExpectContinueTimeout :: int

record ConnectionConfig =
  MaxIdleConns :: int
  MaxIdleConnsPerHost :: int
  MaxConnsPerHost :: int

record RetryConfig =
  MaxRetries :: int
  RetryDelay :: int
  RetryOnStatus :: "int list"

record LoggingConfig =
  Enabled :: bool
  LogRequestBody :: bool
  LogResponseBody :: bool
  LogHeaders :: bool
  SanitizeHeaders :: bool

record Config =
  BaseTimeout :: int
  TLSConfig :: TLSConfig
  TimeoutConfig :: TimeoutConfig
  ConnectionConfig :: ConnectionConfig
  RetryConfig :: RetryConfig
  LoggingConfig :: LoggingConfig

definition NewConfig :: "int \<Rightarrow> Config" where
  "NewConfig baseTimeout =
     \<lparr> BaseTimeout = baseTimeout,
       TLSConfig = \<lparr> InsecureSkipVerify = False, RootCAPath = '''', CertFile = '''', KeyFile = '''' \<rparr>,
       TimeoutConfig = \<lparr> DialTimeout = 5 * Second, TLSHandshakeTimeout = 10 * Second,
         ResponseHeaderTimeout = 10 * Second, IdleConnTimeout = 90 * Second,
         ExpectContinueTimeout = 1 * Second \<rparr>,
       ConnectionConfig = \<lparr> MaxIdleConns = 100, MaxIdleConnsPerHost = 10, MaxConnsPerHost = 0 \<rparr>,
       RetryConfig = \<lparr> MaxRetries = 0, RetryDelay = 1 * Second,
         RetryOnStatus = [500, 502, 503, 504] \<rparr>,
       LoggingConfig = \<lparr> Enabled = True, LogRequestBody = True, LogResponseBody = True,
         LogHeaders = True, SanitizeHeaders = True \<rparr> \<rparr>"

definition Validate :: "Config \<Rightarrow> error option" where
  "Validate c =
     (if BaseTimeout c \<le> 0 then Some (ErrorString ''baseTimeout must be greater than 0'')
      else if DialTimeout (TimeoutConfig c) \<le> 0
        then Some (ErrorString ''dialTimeout must be greater than 0'')
      else if TLSHandshakeTimeout (TimeoutConfig c) \<le> 0
        then Some (ErrorString ''tlsHandshakeTimeout must be greater than 0'')
      else if MaxIdleConns (ConnectionConfig c) < 0
        then Some (ErrorString ''maxIdleConns cannot be negative'')
      else if MaxIdleConnsPerHost (ConnectionConfig c) < 0
        then Some (ErrorString ''maxIdleConnsPerHost cannot be negative'')
      else if MaxRetries (RetryConfig c) < 0
        then Some (ErrorString ''maxRetries cannot be negative'')
      else None)"

section \<open>The state of the package and of the world around it\<close>

text \<open>
  A value of type \<open>map[string]string\<close> is a reference to a map that the caller and the
  callee share. The store \<open>heap\<close> holds the header maps; a parameter of that type is a
  \<open>ref option\<close>, \<open>None\<close> being the nil map. \<open>next_ref\<close> is the next unused reference
  (what \<open>make\<close> returns).
\<close>

type_synonym headers = "string \<rightharpoonup> string"
type_synonym ref = nat

text \<open>What \<open>httpClient.Do\<close> is handed: the request line, the headers added and the body
  that is left to read in the body reader (\<open>None\<close> for a nil reader).\<close>

record request =
  req_method :: string
  req_url :: string
  req_header :: headers
  req_body :: "string option"

text \<open>
  What the package does to the outside, in order: the calls of \<open>httpClient.Do\<close> and the
  log entries. A log entry is kept as the values handed to the formatters (the header map
  with the flag \<open>SanitizeHeaders\<close>, as \<open>formatHeaders\<close> receives them; the payload and
  the response, as \<open>formatBody\<close> receives them), not as the coloured text; an absent
  entry is \<open>None\<close>. The measured duration is not kept.
\<close>

datatype event =
    Do_ev request
  | LogRequest_ev string string string "(headers \<times> bool) option" "string option"
  | LogResponse_ev string int "string option"
  | LogError_ev string string
  | LogWarning_ev string string

text \<open>
  The package variables \<open>config\<close> and \<open>isInitialized\<close> (\<open>config\<close> is nil, and never read,
  until \<open>Init\<close> has set both), the store, and two observations: \<open>calls\<close> counts the
  executions of \<open>executeRequestOnce\<close>, \<open>trace\<close> lists the events.
\<close>

record world =
  config :: Config
  isInitialized :: bool
  heap :: "ref \<Rightarrow> headers"
  next_ref :: ref
  calls :: nat
  trace :: "event list"

text \<open>
  A body reader (\<open>io.Reader\<close>): the bytes it was made of and the read offset.
  \<open>*bytes.Buffer\<close> has no \<open>Seek\<close>; \<open>*strings.Reader\<close> has one.
\<close>

datatype reader = BytesBuffer string nat | StringsReader string nat

fun remaining :: "reader \<Rightarrow> string" where
  "remaining (BytesBuffer s off) = drop off s"
| "remaining (StringsReader s off) = drop off s"

fun advance :: "nat \<Rightarrow> reader \<Rightarrow> reader" where
  "advance n (BytesBuffer s off) = BytesBuffer s (min (length s) (off + n))"
| "advance n (StringsReader s off) = StringsReader s (min (length s) (off + n))"

text \<open>
  What the network and the clock decide during one iteration of the retry loop:
  \<^item> \<open>ctx_done_first\<close>: the \<open>select\<close> before a retry; \<open>Some e\<close> when \<open>ctx.Done()\<close> is
    taken, \<open>e\<close> being \<open>ctx.Err()\<close>, \<open>None\<close> when the timer of \<open>RetryDelay\<close> is taken;
  \<^item> \<open>outcome\<close>: where the attempt ends: \<open>http.NewRequestWithContext\<close> fails,
    \<open>httpClient.Do\<close> fails, reading the response body fails, or a status code and a
    body arrive;
  \<^item> \<open>body_read\<close>: how many bytes of the request body the transport consumed;
  \<^item> \<open>ctx_err_after\<close>: the value of \<open>ctx.Err()\<close> after the attempt.
  An environment gives these for every loop index.
\<close>

datatype round_trip =
    NewRequestError error
  | DoError error
  | ReadError error
  | Response int string

record attempt_env =
  ctx_done_first :: "error option"
  outcome :: round_trip
  body_read :: nat
  ctx_err_after :: "error option"

type_synonym env = "int \<Rightarrow> attempt_env"

section \<open>Logging (the coloured logger)\<close>

definition LogError :: "string \<Rightarrow> string \<Rightarrow> world \<Rightarrow> world" where
  "LogError property message w = w\<lparr>trace := trace w @ [LogError_ev property message]\<rparr>"

definition LogWarning :: "string \<Rightarrow> string \<Rightarrow> world \<Rightarrow> world" where
  "LogWarning property message w = w\<lparr>trace := trace w @ [LogWarning_ev property message]\<rparr>"

definition sensitiveHeaders :: "string list" where
  "sensitiveHeaders = [''authorization'', ''auth'', ''token'', ''api-key'', ''x-api-key'', ''bearer'']"

text \<open>The loop of \<open>sanitizeHeaderValue\<close> over \<open>sensitiveHeaders\<close>.\<close>

fun sanitize_loop :: "string list \<Rightarrow> string \<Rightarrow> string \<Rightarrow> string" where
  "sanitize_loop [] lowerKey v = v"
| "sanitize_loop (sensitive # rest) lowerKey v =
     (if strings_Contains lowerKey sensitive
      then (if length v > 10 then take 10 v @ ''...'' else ''***'')
      else sanitize_loop rest lowerKey v)"

definition sanitizeHeaderValue :: "(string \<Rightarrow> string) \<Rightarrow> string \<Rightarrow> string \<Rightarrow> string" where
  "sanitizeHeaderValue strings_ToLower key v =
     sanitize_loop sensitiveHeaders (strings_ToLower key) v"

text \<open>
  The same function in the plain-log revision of the file (src/unnamed/part_000), which
  differs in the branch for short values.
\<close>

fun sanitize_loop_plain :: "string list \<Rightarrow> string \<Rightarrow> string \<Rightarrow> string" where
  "sanitize_loop_plain [] lowerKey v = v"
| "sanitize_loop_plain (sensitive # rest) lowerKey v =
     (if strings_Contains lowerKey sensitive
      then (if length v > 10 then take 10 v @ ''...'' else v @ ''...'')
      else sanitize_loop_plain rest lowerKey v)"

definition sanitizeHeaderValue_plain :: "(string \<Rightarrow> string) \<Rightarrow> string \<Rightarrow> string \<Rightarrow> string" where
  "sanitizeHeaderValue_plain strings_ToLower key v =
     sanitize_loop_plain sensitiveHeaders (strings_ToLower key) v"

text \<open>\<open>formatHeaders\<close>, up to the map \<open>formatted\<close> that it hands to \<open>json.Marshal\<close>.\<close>

definition formatHeaders :: "(string \<Rightarrow> string) \<Rightarrow> headers \<Rightarrow> bool \<Rightarrow> headers" where
  "formatHeaders strings_ToLower hs sanitize =
     (\<lambda>key. case hs key of None \<Rightarrow> None
        | Some v \<Rightarrow> if sanitize then Some (sanitizeHeaderValue strings_ToLower key v)
                   else Some v)"

text \<open>
  \<open>logRequest\<close>: the header entry is the pair \<open>formatHeaders\<close> is called with, the
  payload entry the string \<open>formatBody\<close> is called with.
\<close>

definition logRequest ::
  "string \<Rightarrow> string \<Rightarrow> string \<Rightarrow> ref option \<Rightarrow> string \<Rightarrow> world \<Rightarrow> world" where
  "logRequest method endpoint description hdrs payload w =
     (let lc = LoggingConfig (config w) in
      if \<not> Enabled lc then w
      else w\<lparr>trace := trace w @
        [LogRequest_ev description method endpoint
           (case hdrs of None \<Rightarrow> None
            | Some r \<Rightarrow> if LogHeaders lc then Some (heap w r, SanitizeHeaders lc) else None)
           (if LogRequestBody lc then Some payload else None)]\<rparr>)"

definition logResponseWithDuration :: "string \<Rightarrow> string \<Rightarrow> int \<Rightarrow> world \<Rightarrow> world" where
  "logResponseWithDuration description response statusCode w =
     (let lc = LoggingConfig (config w) in
      if \<not> Enabled lc then w
      else w\<lparr>trace := trace w @
        [LogResponse_ev description statusCode
           (if LogResponseBody lc then Some response else None)]\<rparr>)"

section \<open>Initialisation (network.go)\<close>

definition Init :: "Config \<Rightarrow> world \<Rightarrow> error option \<times> world" where
  "Init cfg w =
     (case Validate cfg of
        Some err \<Rightarrow> (Some (ErrorString (''invalid configuration: '' @ Error err)), w)
      | None \<Rightarrow> (None, w\<lparr>config := cfg, isInitialized := True\<rparr>))"

definition ensureInitialized :: "world \<Rightarrow> world" where
  "ensureInitialized w =
     (if \<not> isInitialized w then
        (case Init (NewConfig (30 * Second)) w of
           (Some err, w') \<Rightarrow>
             LogError ''init-error''
               (''Failed to initialize with default configuration: '' @ Error err) w'
         | (None, w') \<Rightarrow> w')
      else w)"

section \<open>The retry decision and one attempt\<close>

text \<open>The loop of \<open>shouldRetry\<close> over \<open>RetryOnStatus\<close>, then the three network words.\<close>

fun retry_status_loop :: "int list \<Rightarrow> string \<Rightarrow> bool" where
  "retry_status_loop [] errStr =
     (strings_Contains errStr ''connection'' \<or> strings_Contains errStr ''timeout''
      \<or> strings_Contains errStr ''EOF'')"
| "retry_status_loop (statusCode # rest) errStr =
     (if strings_Contains errStr (''response code: '' @ Sprintf_d statusCode) then True
      else retry_status_loop rest errStr)"

definition shouldRetry :: "Config \<Rightarrow> error option \<Rightarrow> bool" where
  "shouldRetry cfg err =
     (case err of None \<Rightarrow> False
      | Some e \<Rightarrow> retry_status_loop (RetryOnStatus (RetryConfig cfg)) (Error e))"

definition headers_of :: "world \<Rightarrow> ref option \<Rightarrow> headers" where
  "headers_of w hdrs = (case hdrs of None \<Rightarrow> Map.empty | Some r \<Rightarrow> heap w r)"

text \<open>
  \<open>executeRequestOnce\<close>. It returns the pair of the source, the body reader as the
  transport left it, and the world.
\<close>

definition executeRequestOnce ::
  "attempt_env \<Rightarrow> string \<Rightarrow> string \<Rightarrow> string \<Rightarrow> reader option \<Rightarrow> string \<Rightarrow> ref option
     \<Rightarrow> world \<Rightarrow> (string \<times> error option) \<times> reader option \<times> world" where
  "executeRequestOnce e method description urlStr body payloadStr hdrs w =
     (let w0 = w\<lparr>calls := Suc (calls w)\<rparr>;
          req = \<lparr> req_method = method, req_url = urlStr, req_header = headers_of w0 hdrs,
                  req_body = map_option remaining body \<rparr>;
          w1 = logRequest method urlStr description hdrs payloadStr w0;
          w2 = w1\<lparr>trace := trace w1 @ [Do_ev req]\<rparr>;
          body' = map_option (advance (body_read e)) body
      in case outcome e of
           NewRequestError err \<Rightarrow> (('''', Some err), body, w0)
         | DoError err \<Rightarrow>
             (('''', Some err), body',
              LogError ''request-error'' (description @ '': '' @ Error err) w2)
         | ReadError err \<Rightarrow> (('''', Some err), body', w2)
         | Response statusCode responseBody \<Rightarrow>
             (let w3 = logResponseWithDuration description responseBody statusCode w2 in
              if statusCode < 200 \<or> statusCode \<ge> 300
              then ((responseBody,
                     Some (ErrorString (''received non-2xx response code: '' @ Sprintf_d statusCode))),
                    body', w3)
              else ((responseBody, None), body', w3)))"

section \<open>The retry loop\<close>

text \<open>
  The \<open>for\<close> loop of \<open>executeRequestWithRetry\<close>, from the iteration \<open>attempt\<close> on.
  \<open>attempt + 1\<close> cannot wrap: it is taken only below \<open>maxAttempts\<close>.
\<close>

function executeRequestWithRetry_loop ::
  "env \<Rightarrow> string \<Rightarrow> string \<Rightarrow> string \<Rightarrow> string \<Rightarrow> ref option \<Rightarrow> int \<Rightarrow> int \<Rightarrow> reader option
     \<Rightarrow> string \<Rightarrow> error option \<Rightarrow> world \<Rightarrow> (string \<times> error option) \<times> world" where
  "executeRequestWithRetry_loop env method description urlStr payloadStr hdrs maxAttempts attempt
       body responseBody lastErr w =
     (if attempt < maxAttempts then
        (case (if attempt > 0 then ctx_done_first (env attempt) else None) of
           Some ctxErr \<Rightarrow> (('''', Some ctxErr), w)
         | None \<Rightarrow>
            (let body1 = (if attempt > 0 then
                            (case body of
                               Some (StringsReader s off) \<Rightarrow> Some (StringsReader s 0)
                             | Some (BytesBuffer s off) \<Rightarrow> Some (StringsReader payloadStr 0)
                             | None \<Rightarrow> None)
                          else body);
                 w1 = (if attempt > 0 then
                         LogWarning ''retry''
                           (''Attempt '' @ Sprintf_d (attempt + 1) @ ''/'' @ Sprintf_d maxAttempts
                              @ '' for '' @ description) w
                       else w);
                 res = executeRequestOnce (env attempt) method description urlStr body1
                         payloadStr hdrs w1;
                 responseBody' = fst (fst res);
                 lastErr' = snd (fst res);
                 body2 = fst (snd res);
                 w2 = snd (snd res)
             in if lastErr' = None \<or> ctx_err_after (env attempt) \<noteq> None
                then ((responseBody', lastErr'), w2)
                else if \<not> shouldRetry (config w2) lastErr'
                then ((responseBody', lastErr'), w2)
                else executeRequestWithRetry_loop env method description urlStr payloadStr hdrs
                       maxAttempts (attempt + 1) body2 responseBody' lastErr' w2))
      else ((responseBody, lastErr), w))"
  by pat_completeness auto
termination
  by (relation "measure (\<lambda>(env, method, description, urlStr, payloadStr, hdrs, maxAttempts,
        attempt, rest). nat (maxAttempts - attempt))") auto

declare executeRequestWithRetry_loop.simps [simp del]

definition executeRequestWithRetry ::
  "env \<Rightarrow> string \<Rightarrow> string \<Rightarrow> string \<Rightarrow> reader option \<Rightarrow> string \<Rightarrow> ref option \<Rightarrow> world
     \<Rightarrow> (string \<times> error option) \<times> world" where
  "executeRequestWithRetry env method description urlStr body payloadStr hdrs w =
     (let maxAttempts = int64_wrap (MaxRetries (RetryConfig (config w)) + 1)
      in executeRequestWithRetry_loop env method description urlStr payloadStr hdrs maxAttempts 0
           body '''' None w)"

text \<open>\<open>executeRequest\<close>: the deadline of \<open>BaseTimeout\<close> it starts is what \<open>env\<close> reports.\<close>

definition executeRequest ::
  "env \<Rightarrow> string \<Rightarrow> string \<Rightarrow> string \<Rightarrow> reader option \<Rightarrow> string \<Rightarrow> ref option \<Rightarrow> world
     \<Rightarrow> (string \<times> error option) \<times> world" where
  "executeRequest env method description urlStr body payloadStr hdrs w =
     executeRequestWithRetry env method description urlStr body payloadStr hdrs
       (ensureInitialized w)"

section \<open>Building the request (the payload codec)\<close>

text \<open>
  Modelled from the spec: the method constants \<open>methodGET\<close>, ... are used by network.go
  but declared in no file under src/; they are the names of the HTTP methods the spec
  lists (GET/POST/PUT/DELETE/PATCH/HEAD/OPTIONS).
\<close>

definition methodGET :: string where "methodGET = ''GET''"
definition methodPOST :: string where "methodPOST = ''POST''"
definition methodPUT :: string where "methodPUT = ''PUT''"
definition methodDELETE :: string where "methodDELETE = ''DELETE''"
definition methodPATCH :: string where "methodPATCH = ''PATCH''"
definition methodHEAD :: string where "methodHEAD = ''HEAD''"
definition methodOPTIONS :: string where "methodOPTIONS = ''OPTIONS''"

text \<open>
  The package \<open>net/url\<close> is a parameter: a \<open>URL\<close> is the struct with the field
  \<open>RawQuery\<close> that the code assigns, \<open>url.Values\<close> maps a key to its values, and
  \<open>url.Parse\<close>, \<open>url.ParseQuery\<close> (behind \<open>u.Query()\<close>), \<open>Values.Encode\<close> and
  \<open>URL.String\<close> are whatever the library computes.
\<close>

record URL =
  Scheme :: string
  Host :: string
  Path :: string
  RawQuery :: string
  Fragment :: string

type_synonym Values = "string \<rightharpoonup> string list"

record url_library =
  url_Parse :: "string \<Rightarrow> error + URL"
  url_ParseQuery :: "string \<Rightarrow> Values"
  Values_Encode :: "Values \<Rightarrow> string"
  URL_String :: "URL \<Rightarrow> string"

definition URL_Query :: "url_library \<Rightarrow> URL \<Rightarrow> Values" where
  "URL_Query lib u = url_ParseQuery lib (RawQuery u)"

definition Values_Set :: "string \<Rightarrow> string \<Rightarrow> Values \<Rightarrow> Values" where
  "Values_Set key v q = q(key \<mapsto> [v])"

definition isQueryParamMethod :: "string \<Rightarrow> bool" where
  "isQueryParamMethod method =
     (method = methodGET \<or> method = methodDELETE \<or> method = methodHEAD \<or> method = methodOPTIONS)"

text \<open>
  \<open>makeRequest\<close>. The payload \<open>map[string]interface{}\<close> is \<open>None\<close> (nil) or the list of
  its entries in the order in which \<open>range\<close> happens to visit them (the keys of a map are
  distinct). The values are of any type \<open>'v\<close>; \<open>fmt.Sprint\<close> and \<open>json.Marshal\<close>, which
  look inside them, are parameters, \<open>json.Marshal\<close> seeing the map and not the order.
\<close>

definition makeRequest ::
  "url_library \<Rightarrow> ('v \<Rightarrow> string) \<Rightarrow> ((string \<rightharpoonup> 'v) \<Rightarrow> error + string) \<Rightarrow> env
     \<Rightarrow> string \<Rightarrow> string \<Rightarrow> string \<Rightarrow> (string \<times> 'v) list option \<Rightarrow> ref option \<Rightarrow> world
     \<Rightarrow> (string \<times> error option) \<times> world" where
  "makeRequest lib fmt_Sprint json_Marshal env method description urlStr payload hdrs w =
     (case url_Parse lib urlStr of
        Inl err \<Rightarrow> (('''', Some err), w)
      | Inr u \<Rightarrow>
         (let u1 = (case payload of
                      Some entries \<Rightarrow>
                        if isQueryParamMethod method
                        then u\<lparr>RawQuery := Values_Encode lib
                               (fold (\<lambda>(key, v) q. Values_Set key (fmt_Sprint v) q) entries
                                  (URL_Query lib u))\<rparr>
                        else u
                    | None \<Rightarrow> u)
          in case payload of
               Some entries \<Rightarrow>
                 if \<not> isQueryParamMethod method then
                   (case json_Marshal (map_of entries) of
                      Inl err \<Rightarrow> (('''', Some err), w)
                    | Inr jsonPayload \<Rightarrow>
                        executeRequest env method description (URL_String lib u1)
                          (Some (BytesBuffer jsonPayload 0)) jsonPayload hdrs w)
                 else executeRequest env method description (URL_String lib u1) None '''' hdrs w
             | None \<Rightarrow> executeRequest env method description (URL_String lib u1) None '''' hdrs w))"

definition makeRequestWithString ::
  "url_library \<Rightarrow> env \<Rightarrow> string \<Rightarrow> string \<Rightarrow> string \<Rightarrow> string \<Rightarrow> ref option \<Rightarrow> world
     \<Rightarrow> (string \<times> error option) \<times> world" where
  "makeRequestWithString lib env method description urlStr payload hdrs w =
     (case url_Parse lib urlStr of
        Inl err \<Rightarrow> (('''', Some err), w)
      | Inr u \<Rightarrow>
         (if \<not> isQueryParamMethod method \<and> payload \<noteq> '''' then
            (let quotedPayload = [CHR 0x22] @ payload @ [CHR 0x22]
             in executeRequest env method description (URL_String lib u)
                  (Some (BytesBuffer quotedPayload 0)) quotedPayload hdrs w)
          else executeRequest env method description (URL_String lib u) None '''' hdrs w))"

definition MakePOSTRequestWithString ::
  "url_library \<Rightarrow> env \<Rightarrow> string \<Rightarrow> string \<Rightarrow> string \<Rightarrow> ref option \<Rightarrow> world
     \<Rightarrow> (string \<times> error option) \<times> world" where
  "MakePOSTRequestWithString lib env description url payload hdrs w =
     makeRequestWithString lib env methodPOST description url payload hdrs w"

definition MakePUTRequestWithString ::
  "url_library \<Rightarrow> env \<Rightarrow> string \<Rightarrow> string \<Rightarrow> string \<Rightarrow> ref option \<Rightarrow> world
     \<Rightarrow> (string \<times> error option) \<times> world" where
  "MakePUTRequestWithString lib env description url payload hdrs w =
     makeRequestWithString lib env methodPUT description url payload hdrs w"

definition MakePATCHRequestWithString ::
  "url_library \<Rightarrow> env \<Rightarrow> string \<Rightarrow> string \<Rightarrow> string \<Rightarrow> ref option \<Rightarrow> world
     \<Rightarrow> (string \<times> error option) \<times> world" where
  "MakePATCHRequestWithString lib env description url payload hdrs w =
     makeRequestWithString lib env methodPATCH description url payload hdrs w"

text \<open>
  \<open>MakeGETRequest\<close> copies the \<open>map[string]string\<close> into a fresh, non-nil payload map;
  the values are strings, which \<open>fmt.Sprint\<close> prints as they are.
\<close>

definition MakeGETRequest ::
  "url_library \<Rightarrow> ((string \<rightharpoonup> string) \<Rightarrow> error + string) \<Rightarrow> env \<Rightarrow> string \<Rightarrow> string
     \<Rightarrow> (string \<times> string) list option \<Rightarrow> ref option \<Rightarrow> world
     \<Rightarrow> (string \<times> error option) \<times> world" where
  "MakeGETRequest lib json_Marshal env description baseURL queryParams hdrs w =
     makeRequest lib (\<lambda>v. v) json_Marshal env methodGET description baseURL
       (Some (case queryParams of None \<Rightarrow> [] | Some entries \<Rightarrow> entries)) hdrs w"

text \<open>
  \<open>MakeXMLPostRequest\<close>. A nil \<open>headers\<close> is replaced by a fresh map; the assignment
  \<open>headers["Content-Type"] = ...\<close> writes into the map the reference points to.
\<close>

definition MakeXMLPostRequest ::
  "env \<Rightarrow> string \<Rightarrow> string \<Rightarrow> string \<Rightarrow> ref option \<Rightarrow> world
     \<Rightarrow> (string \<times> error option) \<times> world" where
  "MakeXMLPostRequest env description urlStr xmlPayload hdrs w =
     (let w1 = ensureInitialized w;
          r = (case hdrs of None \<Rightarrow> next_ref w1 | Some r0 \<Rightarrow> r0);
          w2 = (case hdrs of
                  None \<Rightarrow> w1\<lparr>heap := (heap w1)(next_ref w1 := Map.empty),
                             next_ref := Suc (next_ref w1)\<rparr>
                | Some r0 \<Rightarrow> w1);
          w3 = (if heap w2 r ''Content-Type'' = None
                then w2\<lparr>heap := (heap w2)(r := (heap w2 r)(''Content-Type'' \<mapsto> ''text/xml; charset=UTF-8''))\<rparr>
                else w2)
      in executeRequest env methodPOST description urlStr
           (Some (BytesBuffer xmlPayload 0)) xmlPayload (Some r) w3)"

section \<open>The JSON encoding of a string, as the specification words it\<close>

text \<open>
  The specification says that a raw string payload is "JSON-stringified as a scalar".
  \<open>spec_json_string\<close> is that encoding (RFC 8259): the string between two quotation
  marks, with the quotation mark and the backslash escaped by a backslash and a control
  character written as a \<open>u\<close>-escape with four hexadecimal digits. It is the
  specification's side of the comparison with \<open>makeRequestWithString\<close>; nothing in the
  source computes it.
\<close>

definition hex_digit :: "nat \<Rightarrow> char" where
  "hex_digit n = (if n < 10 then char_of (48 + n) else char_of (87 + n))"

definition json_plain :: "char \<Rightarrow> bool" where
  "json_plain c = (c \<noteq> CHR 0x22 \<and> c \<noteq> CHR 0x5C \<and> 32 \<le> (of_char c :: nat))"

definition json_escape :: "char \<Rightarrow> string" where
  "json_escape c =
     (if c = CHR 0x22 then [CHR 0x5C, CHR 0x22]
      else if c = CHR 0x5C then [CHR 0x5C, CHR 0x5C]
      else if (of_char c :: nat) < 32
        then [CHR 0x5C, CHR ''u'', CHR ''0'', CHR ''0'',
              hex_digit ((of_char c :: nat) div 16), hex_digit ((of_char c :: nat) mod 16)]
      else [c])"

definition spec_json_string :: "string \<Rightarrow> string" where
  "spec_json_string s = [CHR 0x22] @ concat (map json_escape s) @ [CHR 0x22]"

section \<open>Observations used by the statements\<close>

text \<open>The events a call added to the trace.\<close>

definition new_events :: "world \<Rightarrow> world \<Rightarrow> event list" where
  "new_events w w' = drop (length (trace w)) (trace w')"

text \<open>
  The pair \<open>executeRequestOnce\<close> returns, as a function of where the attempt ends
  (the Attempt Outcome of the specification).
\<close>

definition attempt_result :: "round_trip \<Rightarrow> string \<times> error option" where
  "attempt_result rt =
     (case rt of
        NewRequestError err \<Rightarrow> ('''', Some err)
      | DoError err \<Rightarrow> ('''', Some err)
      | ReadError err \<Rightarrow> ('''', Some err)
      | Response statusCode responseBody \<Rightarrow>
          if 200 \<le> statusCode \<and> statusCode \<le> 299 then (responseBody, None)
          else (responseBody,
                Some (ErrorString (''received non-2xx response code: '' @ Sprintf_d statusCode))))"

text \<open>
  Names for the parts of one iteration of the retry loop: the body reader after the reset
  before a retry, the world after the warning, and the attempt made with both.
\<close>

definition retry_body :: "string \<Rightarrow> int \<Rightarrow> reader option \<Rightarrow> reader option" where
  "retry_body payloadStr attempt body =
     (if attempt > 0 then
        (case body of
           Some (StringsReader s off) \<Rightarrow> Some (StringsReader s 0)
         | Some (BytesBuffer s off) \<Rightarrow> Some (StringsReader payloadStr 0)
         | None \<Rightarrow> None)
      else body)"

definition retry_world :: "string \<Rightarrow> int \<Rightarrow> int \<Rightarrow> world \<Rightarrow> world" where
  "retry_world description maxAttempts attempt w =
     (if attempt > 0 then
        LogWarning ''retry''
          (''Attempt '' @ Sprintf_d (attempt + 1) @ ''/'' @ Sprintf_d maxAttempts
             @ '' for '' @ description) w
      else w)"

definition loop_attempt ::
  "env \<Rightarrow> string \<Rightarrow> string \<Rightarrow> string \<Rightarrow> string \<Rightarrow> ref option \<Rightarrow> int \<Rightarrow> int \<Rightarrow> reader option
     \<Rightarrow> world \<Rightarrow> (string \<times> error option) \<times> reader option \<times> world" where
  "loop_attempt env method description urlStr payloadStr hdrs maxAttempts attempt body w =
     executeRequestOnce (env attempt) method description urlStr
       (retry_body payloadStr attempt body) payloadStr hdrs
       (retry_world description maxAttempts attempt w)"

text \<open>The bytes a body reader was made of.\<close>

fun content :: "reader \<Rightarrow> string" where
  "content (BytesBuffer s off) = s"
| "content (StringsReader s off) = s"

text \<open>
  The iteration \<open>k\<close> fails with an error that is retried, and the deadline does not
  expire: the timer wins the \<open>select\<close> before it (for a retry), \<open>ctx.Err()\<close> is nil
  after it, and \<open>shouldRetry\<close> accepts the error the attempt returns.
\<close>

definition retryable_failure :: "Config \<Rightarrow> env \<Rightarrow> int \<Rightarrow> bool" where
  "retryable_failure cfg env k =
     ((0 < k \<longrightarrow> ctx_done_first (env k) = None) \<and> ctx_err_after (env k) = None
      \<and> shouldRetry cfg (snd (attempt_result (outcome (env k)))))"

text \<open>
  What every event of a call of the pipeline looks like: a request sent is the one given,
  and a logged request has the method, the URL and (when logged) the payload string.
\<close>

definition attempt_event ::
  "string \<Rightarrow> string \<Rightarrow> headers \<Rightarrow> string option \<Rightarrow> string \<Rightarrow> event \<Rightarrow> bool" where
  "attempt_event m u hs b p ev =
     (case ev of
        Do_ev req \<Rightarrow> req = \<lparr> req_method = m, req_url = u, req_header = hs, req_body = b \<rparr>
      | LogRequest_ev d' m' u' hs' pl \<Rightarrow> m' = m \<and> u' = u \<and> (pl = None \<or> pl = Some p)
      | _ \<Rightarrow> True)"

text \<open>
  The invariant of the loop on the body reader: it was made of the payload string, and
  before the first attempt nothing of it has been read.
\<close>

definition body_inv :: "string \<Rightarrow> int \<Rightarrow> reader option \<Rightarrow> bool" where
  "body_inv p attempt body =
     (\<forall>r. body = Some r \<longrightarrow> content r = p \<and> (attempt = 0 \<longrightarrow> remaining r = p))"

text \<open>\<open>sub\<close> is a substring of \<open>s\<close>.\<close>

definition occurs_in :: "string \<Rightarrow> string \<Rightarrow> bool" where
  "occurs_in sub s = (\<exists>p q. s = p @ sub @ q)"

text \<open>
  A header name is sensitive when, once in lower case, it contains one of the sensitive
  terms: this is how the code disregards case.
\<close>

definition is_sensitive :: "(string \<Rightarrow> string) \<Rightarrow> string \<Rightarrow> bool" where
  "is_sensitive strings_ToLower name =
     (\<exists>t \<in> set sensitiveHeaders. occurs_in t (strings_ToLower name))"

text \<open>
  For ASCII names: \<open>name\<close> contains \<open>t\<close> up to the case of letters (\<open>t\<close> being in lower
  case) when some part of \<open>name\<close> is \<open>t\<close> once in lower case.
\<close>

definition contains_fold :: "string \<Rightarrow> string \<Rightarrow> bool" where
  "contains_fold name t = (\<exists>p s q. name = p @ s @ q \<and> ascii_ToLower s = t)"

text \<open>
  The number of characters of a string, as the specification counts a value: the code
  points of its UTF-8 encoding, that is, the bytes that are not continuation bytes
  (\<open>0x80..0xBF\<close>). Nothing in the source computes it.
\<close>

definition utf8_characters :: "string \<Rightarrow> nat" where
  "utf8_characters s =
     length (filter (\<lambda>c. \<not> (128 \<le> (of_char c :: nat) \<and> (of_char c :: nat) < 192)) s)"

text \<open>The header map with the XML content type added when it has no \<open>Content-Type\<close>.\<close>

definition with_xml_content_type :: "headers \<Rightarrow> headers" where
  "with_xml_content_type hs =
     (if hs ''Content-Type'' = None then hs(''Content-Type'' \<mapsto> ''text/xml; charset=UTF-8'') else hs)"

text \<open>
  The parameter set asked of \<open>makeRequest\<close>: every key of the payload has the one value
  \<open>fmt.Sprint\<close> prints for it, every other key what the URL had.
\<close>

definition query_values :: "('v \<Rightarrow> string) \<Rightarrow> (string \<times> 'v) list \<Rightarrow> Values \<Rightarrow> Values" where
  "query_values fmt_Sprint entries q0 =
     (\<lambda>key. case map_of entries key of Some v \<Rightarrow> Some [fmt_Sprint v] | None \<Rightarrow> q0 key)"

text \<open>A string between two quotation marks.\<close>

definition quoted :: "string \<Rightarrow> string" where
  "quoted payload = [CHR 0x22] @ payload @ [CHR 0x22]"

text \<open>The header map \<open>MakeXMLPostRequest\<close> works on: the caller's, or a fresh one.\<close>

definition xml_headers_ref :: "world \<Rightarrow> ref option \<Rightarrow> ref" where
  "xml_headers_ref w hdrs = (case hdrs of None \<Rightarrow> next_ref w | Some r \<Rightarrow> r)"

text \<open>
  A caller supplies a header when its map has an entry whose name is the header's name
  up to the case of letters: this is how HTTP compares header names (which are ASCII),
  and how the specification's "did not already set one" reads. Nothing in the source
  computes it: the code looks the exact key up.
\<close>

definition header_name_eq :: "string \<Rightarrow> string \<Rightarrow> bool" where
  "header_name_eq a b = (ascii_ToLower a = ascii_ToLower b)"

definition supplies_header :: "headers \<Rightarrow> string \<Rightarrow> bool" where
  "supplies_header hs name = (\<exists>key. hs key \<noteq> None \<and> header_name_eq key name)"

section \<open>Concrete configurations and environments\<close>

text \<open>A header value of six characters in twelve bytes: six times \<open>U+00E9\<close>.\<close>

definition six_accents :: string where
  "six_accents =
      [CHR 0xC3, CHR 0xA9, CHR 0xC3, CHR 0xA9,
       CHR 0xC3, CHR 0xA9, CHR 0xC3, CHR 0xA9,
       CHR 0xC3, CHR 0xA9, CHR 0xC3, CHR 0xA9]"

text \<open>
  An initialised package with the default configuration, an empty store and nothing done
  yet; and an iteration in which the deadline holds and the attempt ends as given.
\<close>

definition example_world :: world where
  "example_world = \<lparr> config = NewConfig (30 * Second), isInitialized = True,
      heap = (\<lambda>r. Map.empty), next_ref = 0, calls = 0, trace = [] \<rparr>"

definition example_attempt :: "round_trip \<Rightarrow> attempt_env" where
  "example_attempt rt = \<lparr> ctx_done_first = None, outcome = rt, body_read = 0, ctx_err_after = None \<rparr>"

text \<open>The same package configured with \<open>n\<close> retries on the default statuses.\<close>

definition retry_world_of :: "int \<Rightarrow> world" where
  "retry_world_of n = example_world\<lparr>config := (NewConfig (30 * Second))
      \<lparr>RetryConfig := \<lparr> MaxRetries = n, RetryDelay = 1 * Second,
           RetryOnStatus = [500, 502, 503, 504] \<rparr>\<rparr>\<rparr>"

text \<open>
  Environments: every attempt is answered 503; the first three are answered 503 and the
  deadline expires in the wait that follows; the deadline expires during an attempt that
  is answered 500.
\<close>

definition always_503 :: env where
  "always_503 = (\<lambda>k. example_attempt (Response 503 ''unavailable''))"

definition deadline_in_wait :: env where
  "deadline_in_wait = (\<lambda>k. if k < 3 then example_attempt (Response 503 ''unavailable'')
      else (example_attempt (Response 200 ''ok''))\<lparr>ctx_done_first := Some DeadlineExceeded\<rparr>)"

definition deadline_in_attempt :: env where
  "deadline_in_attempt = (\<lambda>k. (example_attempt (Response 500 ''oops''))
      \<lparr>ctx_err_after := Some DeadlineExceeded\<rparr>)"

text \<open>
  Every attempt is answered 200. A small instance of the URL library: the URL is kept as
  its path, the query is written for the keys \<open>limit\<close> and \<open>page\<close>, in this (sorted)
  order.
\<close>

definition ok_env :: env where
  "ok_env = (\<lambda>k. example_attempt (Response 200 ''ok''))"

definition example_encode :: "Values \<Rightarrow> string" where
  "example_encode q =
     (case (q ''limit'', q ''page'') of
        (Some [a], Some [b]) \<Rightarrow> ''limit='' @ a @ ''&page='' @ b
      | (Some [a], _) \<Rightarrow> ''limit='' @ a
      | (_, Some [b]) \<Rightarrow> ''page='' @ b
      | _ \<Rightarrow> '''')"

definition example_lib :: url_library where
  "example_lib =
     \<lparr> url_Parse = (\<lambda>s. Inr \<lparr> Scheme = '''', Host = '''', Path = s, RawQuery = '''', Fragment = '''' \<rparr>),
       url_ParseQuery = (\<lambda>s. Map.empty),
       Values_Encode = example_encode,
       URL_String = (\<lambda>u. Path u @ (if RawQuery u = '''' then '''' else ''?'' @ RawQuery u)) \<rparr>"

text \<open>A store in which the reference 0 is a header map with the one key \<open>Accept\<close>.\<close>

definition accept_world :: world where
  "accept_world = example_world\<lparr>heap := (\<lambda>r. if r = 0 then [''Accept'' \<mapsto> ''application/xml''] else Map.empty),
      next_ref := 1\<rparr>"

text \<open>
  A store in which the reference 0 is a header map with the one key \<open>content-type\<close>, in
  lower case.
\<close>

definition soap_world :: world where
  "soap_world = example_world\<lparr>heap := (\<lambda>r. if r = 0 then [''content-type'' \<mapsto> ''application/soap+xml'']
        else Map.empty),
      next_ref := 1\<rparr>"

section \<open>Strings and numerals\<close>

lemma hasPrefix_iff: "hasPrefix s p \<longleftrightarrow> (\<exists>q. s = p @ q)"
  by (induction s p rule: hasPrefix.induct) auto

lemma strings_Contains_iff: "strings_Contains s sub \<longleftrightarrow> (\<exists>p q. s = p @ sub @ q)"
proof (induction s)
  case Nil
  then show ?case by auto
next
  case (Cons c s)
  show ?case
  proof
    assume "strings_Contains (c # s) sub"
    then consider "hasPrefix (c # s) sub" | "strings_Contains s sub" by auto
    then show "\<exists>p q. c # s = p @ sub @ q"
    proof cases
      case 1
      then obtain q where "c # s = sub @ q" by (auto simp: hasPrefix_iff)
      then have "c # s = [] @ sub @ q" by simp
      then show ?thesis by blast
    next
      case 2
      then obtain p q where "s = p @ sub @ q" using Cons.IH by blast
      then have "c # s = (c # p) @ sub @ q" by simp
      then show ?thesis by blast
    qed
  next
    assume "\<exists>p q. c # s = p @ sub @ q"
    then obtain p q where pq: "c # s = p @ sub @ q" by blast
    show "strings_Contains (c # s) sub"
    proof (cases p)
      case Nil
      then have "hasPrefix (c # s) sub" using pq by (auto simp: hasPrefix_iff)
      then show ?thesis by simp
    next
      case (Cons a p')
      then have "s = p' @ sub @ q" using pq by simp
      then have "strings_Contains s sub" using Cons.IH by blast
      then show ?thesis by simp
    qed
  qed
qed

lemma retry_status_loop_iff:
  "retry_status_loop codes errStr \<longleftrightarrow>
     (\<exists>n \<in> set codes. strings_Contains errStr (''response code: '' @ Sprintf_d n))
     \<or> strings_Contains errStr ''connection'' \<or> strings_Contains errStr ''timeout''
     \<or> strings_Contains errStr ''EOF''"
  by (induction codes) auto

lemma sanitize_loop_hit:
  "\<exists>t \<in> set ts. strings_Contains k t \<Longrightarrow>
   sanitize_loop ts k v = (if length v > 10 then take 10 v @ ''...'' else ''***'')"
  by (induction ts) fastforce+

lemma sanitize_loop_miss:
  "\<forall>t \<in> set ts. \<not> strings_Contains k t \<Longrightarrow> sanitize_loop ts k v = v"
  by (induction ts) fastforce+

lemma decimal_value_snoc: "decimal_value (s @ [c]) = 10 * decimal_value s + digit_value c"
  by (simp add: decimal_value_def)

lemma digit_value_char_of: "d < 10 \<Longrightarrow> digit_value (char_of (48 + d)) = d"
  by (simp add: digit_value_def)

lemma decimal_value_decimal: "decimal_value (decimal n) = n"
proof (induction n rule: decimal.induct)
  case (1 n)
  show ?case
  proof (cases "n < 10")
    case True
    then show ?thesis
      using digit_value_char_of[of n] by (subst decimal.simps) (simp add: decimal_value_def)
  next
    case False
    then show ?thesis
      using 1 digit_value_char_of[of "n mod 10"]
      by (subst decimal.simps) (simp add: decimal_value_snoc)
  qed
qed

lemma Sprintf_d_404: "Sprintf_d 404 = ''404''"
  by (simp add: Sprintf_d_def decimal.simps char_of_def bit_Suc_0_iff)
lemma Sprintf_d_negative: "Sprintf_d (-7) = ''-7''"
  by (simp add: Sprintf_d_def decimal.simps char_of_def bit_Suc_0_iff)

lemma executeRequestOnce_result:
  "fst (executeRequestOnce e method description urlStr body payloadStr hdrs w) = attempt_result (outcome e)"
  by (auto simp: executeRequestOnce_def attempt_result_def Let_def split: round_trip.splits)

section \<open>One iteration of the retry loop\<close>

lemma loop_exit:
  "\<not> attempt < maxAttempts \<Longrightarrow>
   executeRequestWithRetry_loop env m d u p h maxAttempts attempt body rb le w = ((rb, le), w)"
  by (subst executeRequestWithRetry_loop.simps) simp

lemma loop_ctx_done:
  "attempt < maxAttempts \<Longrightarrow> 0 < attempt \<Longrightarrow> ctx_done_first (env attempt) = Some e \<Longrightarrow>
   executeRequestWithRetry_loop env m d u p h maxAttempts attempt body rb le w = (('''', Some e), w)"
  by (subst executeRequestWithRetry_loop.simps) simp

lemma fst_pair_eq: "((fst x, b) = x) = (b = snd x)"
  by (cases x) auto

lemma loop_step:
  assumes "attempt < maxAttempts" and "0 < attempt \<longrightarrow> ctx_done_first (env attempt) = None"
  shows "executeRequestWithRetry_loop env m d u p h maxAttempts attempt body rb le w =
     (let res = loop_attempt env m d u p h maxAttempts attempt body w in
      if snd (fst res) = None \<or> ctx_err_after (env attempt) \<noteq> None
         \<or> \<not> shouldRetry (config (snd (snd res))) (snd (fst res))
      then (fst res, snd (snd res))
      else executeRequestWithRetry_loop env m d u p h maxAttempts (attempt + 1)
             (fst (snd res)) (fst (fst res)) (snd (fst res)) (snd (snd res)))"
proof (cases "0 < attempt")
  case True
  with assms show ?thesis
    by (subst executeRequestWithRetry_loop.simps)
       (simp add: Let_def loop_attempt_def retry_body_def retry_world_def fst_pair_eq)
next
  case False
  with assms show ?thesis
    by (subst executeRequestWithRetry_loop.simps)
       (simp add: Let_def loop_attempt_def retry_body_def retry_world_def fst_pair_eq)
qed

lemma executeRequestOnce_frame:
  assumes "executeRequestOnce e m d u body p h w = (res, body', w')"
  shows "config w' = config w" "isInitialized w' = isInitialized w" "heap w' = heap w"
    "next_ref w' = next_ref w" "calls w' = Suc (calls w)" "res = attempt_result (outcome e)"
  using assms
  by (auto simp: executeRequestOnce_def attempt_result_def Let_def logRequest_def LogError_def
      logResponseWithDuration_def split: round_trip.splits if_splits)

lemma content_advance: "content (advance n r) = content r"
  by (cases r) auto

section \<open>Attempts that fail and are retried\<close>

lemma retry_world_frame:
  "config (retry_world d ma a w) = config w"
  "isInitialized (retry_world d ma a w) = isInitialized w"
  "heap (retry_world d ma a w) = heap w"
  "next_ref (retry_world d ma a w) = next_ref w"
  "calls (retry_world d ma a w) = calls w"
  by (simp_all add: retry_world_def LogWarning_def)

lemma loop_attempt_frame:
  assumes "loop_attempt env m d u p h ma a body w = (res, body', w')"
  shows "config w' = config w" "isInitialized w' = isInitialized w" "heap w' = heap w"
    "next_ref w' = next_ref w" "calls w' = Suc (calls w)"
    "res = attempt_result (outcome (env a))"
  using executeRequestOnce_frame[OF assms[unfolded loop_attempt_def]]
  by (simp_all add: retry_world_frame)

lemma shouldRetry_None: "\<not> shouldRetry cfg None"
  by (simp add: shouldRetry_def)

lemma loop_fail_prefix:
  "attempt \<le> K \<Longrightarrow> K \<le> maxAttempts \<Longrightarrow>
   \<forall>k. attempt \<le> k \<and> k < K \<longrightarrow> retryable_failure (config w) env k \<Longrightarrow>
   \<exists>body' rb' le' w'.
      executeRequestWithRetry_loop env m d u p h maxAttempts attempt body rb le w
        = executeRequestWithRetry_loop env m d u p h maxAttempts K body' rb' le' w'
      \<and> calls w' = calls w + nat (K - attempt) \<and> config w' = config w
      \<and> (attempt < K \<longrightarrow> (rb', le') = attempt_result (outcome (env (K - 1))))"
proof (induction "nat (K - attempt)" arbitrary: attempt body rb le w)
  case 0
  then have "attempt = K" by simp
  then show ?case by auto
next
  case (Suc n)
  then have lt: "attempt < K" and ltm: "attempt < maxAttempts" by linarith+
  obtain res body1 w1 where
    la: "loop_attempt env m d u p h maxAttempts attempt body w = (res, body1, w1)"
    by (metis prod_cases3)
  note fr = loop_attempt_frame[OF la]
  have "retryable_failure (config w) env attempt"
    using Suc.prems(3) lt by simp
  then have f1: "0 < attempt \<longrightarrow> ctx_done_first (env attempt) = None"
    and f2: "ctx_err_after (env attempt) = None"
    and f3: "shouldRetry (config w) (snd (attempt_result (outcome (env attempt))))"
    by (simp_all add: retryable_failure_def)
  have ne: "snd res \<noteq> None"
    using f3 fr(6) shouldRetry_None by metis
  have step: "executeRequestWithRetry_loop env m d u p h maxAttempts attempt body rb le w
      = executeRequestWithRetry_loop env m d u p h maxAttempts (attempt + 1) body1 (fst res) (snd res) w1"
    unfolding loop_step[of attempt maxAttempts env m d u p h body rb le w, OF ltm f1]
      la Let_def
    using f2 f3 fr(1) ne by (auto simp: fr(6)[symmetric])
  have n: "n = nat (K - (attempt + 1))"
    using Suc.hyps(2) by linarith
  have le: "attempt + 1 \<le> K" using lt by simp
  have hyp: "\<forall>k. attempt + 1 \<le> k \<and> k < K \<longrightarrow> retryable_failure (config w1) env k"
    using Suc.prems(3) fr(1) by auto
  from Suc.hyps(1)[OF n le Suc.prems(2) hyp, of body1 "fst res" "snd res"]
  obtain body' rb' le' w' where IH:
    "executeRequestWithRetry_loop env m d u p h maxAttempts (attempt + 1) body1 (fst res) (snd res) w1
       = executeRequestWithRetry_loop env m d u p h maxAttempts K body' rb' le' w'"
    "calls w' = calls w1 + nat (K - (attempt + 1))" "config w' = config w1"
    "attempt + 1 < K \<longrightarrow> (rb', le') = attempt_result (outcome (env (K - 1)))"
    by blast
  show ?case
  proof (cases "attempt + 1 < K")
    case True
    have "calls w' = calls w + nat (K - attempt)"
      using IH(2) fr(5) True by linarith
    then show ?thesis using step IH True fr(1) by auto
  next
    case False
    then have last: "K = attempt + 1" using lt by linarith
    have "executeRequestWithRetry_loop env m d u p h maxAttempts attempt body rb le w
        = executeRequestWithRetry_loop env m d u p h maxAttempts K body1 (fst res) (snd res) w1"
      using step last by simp
    moreover have "calls w1 = calls w + nat (K - attempt)"
      using fr(5) last by simp
    moreover have "(fst res, snd res) = attempt_result (outcome (env (K - 1)))"
      using fr(6) last by simp
    ultimately show ?thesis using fr(1) by blast
  qed
qed

lemma int64_wrap_id: "- 9223372036854775808 \<le> x \<Longrightarrow> x < 9223372036854775808 \<Longrightarrow> int64_wrap x = x"
  by (simp add: int64_wrap_def)

lemma maxAttempts_in_range:
  "0 \<le> N \<Longrightarrow> N < MaxInt64 \<Longrightarrow> int64_wrap (N + 1) = N + 1"
  by (simp add: int64_wrap_id MaxInt64_def)

lemma executeRequestWithRetry_all_fail:
  assumes "MaxRetries (RetryConfig (config w)) = N" and "0 \<le> N" and "N < MaxInt64"
    and "\<forall>k. 0 \<le> k \<and> k \<le> N \<longrightarrow> retryable_failure (config w) env k"
  shows "\<exists>w'. executeRequestWithRetry env m d u body p h w = (attempt_result (outcome (env N)), w')
        \<and> calls w' = calls w + nat N + 1"
proof -
  have hyp: "\<forall>k. 0 \<le> k \<and> k < N + 1 \<longrightarrow> retryable_failure (config w) env k"
    using assms(4) by auto
  from loop_fail_prefix[of 0 "N + 1" "N + 1" w env m d u p h body "''''" None, OF _ _ hyp]
  obtain body' rb' le' w' where
    "executeRequestWithRetry_loop env m d u p h (N + 1) 0 body '''' None w
       = executeRequestWithRetry_loop env m d u p h (N + 1) (N + 1) body' rb' le' w'"
    "calls w' = calls w + nat (N + 1 - 0)" "(rb', le') = attempt_result (outcome (env (N + 1 - 1)))"
    using assms(2) by auto
  then show ?thesis
    using assms(1,2) maxAttempts_in_range[OF assms(2,3)]
    by (auto simp: executeRequestWithRetry_def Let_def loop_exit nat_add_distrib)
qed

section \<open>The requests a call sends\<close>

lemma headers_of_calls: "headers_of (w\<lparr>calls := n\<rparr>) h = headers_of w h"
  by (cases h) (simp_all add: headers_of_def)

lemma headers_of_heap: "heap w' = heap w \<Longrightarrow> headers_of w' h = headers_of w h"
  by (cases h) (simp_all add: headers_of_def)

lemma executeRequestOnce_trace:
  assumes "executeRequestOnce e m d u body p h w = (res, body', w')"
  shows "\<exists>evs. trace w' = trace w @ evs \<and>
           (\<forall>ev \<in> set evs. attempt_event m u (headers_of w h) (map_option remaining body) p ev)"
  using assms
  by (auto simp: executeRequestOnce_def Let_def logRequest_def LogError_def headers_of_calls
      logResponseWithDuration_def attempt_event_def split: round_trip.splits if_splits)

lemma executeRequestOnce_body:
  assumes "executeRequestOnce e m d u body p h w = (res, body', w')"
  shows "body' = body \<or> body' = map_option (advance (body_read e)) body"
  using assms
  by (auto simp: executeRequestOnce_def Let_def split: round_trip.splits if_splits)

lemma retry_world_trace:
  "\<exists>evs. trace (retry_world d ma a w) = trace w @ evs \<and> (\<forall>ev \<in> set evs. attempt_event m u hs b p ev)"
  by (simp add: retry_world_def LogWarning_def attempt_event_def)

lemma loop_attempt_trace:
  assumes "loop_attempt env m d u p h ma a body w = (res, body', w')"
  shows "\<exists>evs. trace w' = trace w @ evs \<and>
           (\<forall>ev \<in> set evs. attempt_event m u (headers_of w h)
               (map_option remaining (retry_body p a body)) p ev)"
proof -
  let ?P = "attempt_event m u (headers_of w h) (map_option remaining (retry_body p a body)) p"
  obtain evs0 where e0: "trace (retry_world d ma a w) = trace w @ evs0" "\<forall>ev \<in> set evs0. ?P ev"
    using retry_world_trace by blast
  have hh: "headers_of (retry_world d ma a w) h = headers_of w h"
    by (rule headers_of_heap) (simp add: retry_world_frame)
  from executeRequestOnce_trace[OF assms[unfolded loop_attempt_def]]
  obtain evs where e1: "trace w' = trace (retry_world d ma a w) @ evs" "\<forall>ev \<in> set evs. ?P ev"
    unfolding hh by blast
  have "trace w' = trace w @ (evs0 @ evs) \<and> (\<forall>ev \<in> set (evs0 @ evs). ?P ev)"
    using e0 e1 by auto
  then show ?thesis by blast
qed

lemma retry_body_remaining:
  "0 \<le> attempt \<Longrightarrow> body_inv p attempt body \<Longrightarrow>
   map_option remaining (retry_body p attempt body) = map_option (\<lambda>_. p) body"
  by (cases body; cases "the body")
     (auto simp: retry_body_def body_inv_def)

lemma retry_body_content:
  "body_inv p attempt body \<Longrightarrow> retry_body p attempt body = Some r \<Longrightarrow> content r = p"
  by (cases body; cases "the body")
     (auto simp: retry_body_def body_inv_def split: if_splits)

lemma retry_body_None: "retry_body p attempt body = None \<longleftrightarrow> body = None"
  by (cases body; cases "the body") (auto simp: retry_body_def)

lemma loop_events:
  "0 \<le> attempt \<Longrightarrow> body_inv p attempt body \<Longrightarrow>
   \<exists>evs. trace (snd (executeRequestWithRetry_loop env m d u p h maxAttempts attempt body rb le w))
           = trace w @ evs
      \<and> (\<forall>ev \<in> set evs. attempt_event m u (headers_of w h) (map_option (\<lambda>_. p) body) p ev)
      \<and> heap (snd (executeRequestWithRetry_loop env m d u p h maxAttempts attempt body rb le w))
           = heap w"
proof (induction "nat (maxAttempts - attempt)" arbitrary: attempt body rb le w)
  case 0
  then have "\<not> attempt < maxAttempts" by simp
  then show ?case by (simp add: loop_exit)
next
  case (Suc n)
  then have lt: "attempt < maxAttempts" by linarith
  let ?run = "executeRequestWithRetry_loop env m d u p h maxAttempts attempt body rb le w"
  show ?case
  proof (cases "0 < attempt \<and> ctx_done_first (env attempt) \<noteq> None")
    case True
    then obtain e where "ctx_done_first (env attempt) = Some e" by auto
    then show ?thesis using loop_ctx_done[OF lt] True by simp
  next
    case False
    then have nd: "0 < attempt \<longrightarrow> ctx_done_first (env attempt) = None" by auto
    obtain res body' w1 where
      la: "loop_attempt env m d u p h maxAttempts attempt body w = (res, body', w1)"
      by (metis prod_cases3)
    note fr = loop_attempt_frame[OF la]
    have rb_eq: "map_option remaining (retry_body p attempt body) = map_option (\<lambda>_. p) body"
      using retry_body_remaining[OF Suc.prems] .
    from loop_attempt_trace[OF la] obtain evs1 where
      t1: "trace w1 = trace w @ evs1"
      and r1: "\<forall>ev \<in> set evs1. attempt_event m u (headers_of w h) (map_option (\<lambda>_. p) body) p ev"
      unfolding rb_eq by blast
    have body'_cases: "body' = retry_body p attempt body
        \<or> body' = map_option (advance (body_read (env attempt))) (retry_body p attempt body)"
      using executeRequestOnce_body[OF la[unfolded loop_attempt_def]] .
    have inv': "body_inv p (attempt + 1) body'"
      using body'_cases retry_body_content[OF Suc.prems(2)] Suc.prems(1)
      by (cases "retry_body p attempt body") (auto simp: body_inv_def content_advance)
    have none': "map_option (\<lambda>_. p) body' = map_option (\<lambda>_. p) body"
      using body'_cases retry_body_None[of p attempt body]
      by (cases body; cases "retry_body p attempt body") auto
    have hw: "headers_of w1 h = headers_of w h"
      by (rule headers_of_heap) (rule fr(3))
    show ?thesis
    proof (cases "snd (fst (res, body', w1)) = None \<or> ctx_err_after (env attempt) \<noteq> None
         \<or> \<not> shouldRetry (config (snd (snd (res, body', w1)))) (snd (fst (res, body', w1)))")
      case True
      then have "?run = (res, w1)"
        unfolding loop_step[of attempt maxAttempts env m d u p h body rb le w, OF lt nd] la Let_def
        by auto
      then show ?thesis using t1 r1 fr(3) by auto
    next
      case False
      then have step: "?run = executeRequestWithRetry_loop env m d u p h maxAttempts (attempt + 1) body'
              (fst res) (snd res) w1"
        unfolding loop_step[of attempt maxAttempts env m d u p h body rb le w, OF lt nd] la Let_def
        by auto
      have n: "n = nat (maxAttempts - (attempt + 1))" using Suc.hyps(2) by linarith
      have ge: "0 \<le> attempt + 1" using Suc.prems(1) by simp
      from Suc.hyps(1)[OF n ge inv', of "fst res" "snd res" w1]
      obtain evs2 where
        t2: "trace (snd ?run) = trace w1 @ evs2"
        and r2: "\<forall>ev \<in> set evs2. attempt_event m u (headers_of w h) (map_option (\<lambda>_. p) body) p ev"
        and h2: "heap (snd ?run) = heap w1"
        unfolding step hw none' by blast
      have "trace (snd ?run) = trace w @ (evs1 @ evs2)"
        using t1 t2 by simp
      moreover have "\<forall>ev \<in> set (evs1 @ evs2).
           attempt_event m u (headers_of w h) (map_option (\<lambda>_. p) body) p ev"
        using r1 r2 by auto
      moreover have "heap (snd ?run) = heap w"
        using h2 fr(3) by simp
      ultimately show ?thesis by blast
    qed
  qed
qed

lemma Validate_NewConfig: "Validate (NewConfig (30 * Second)) = None"
  by (simp add: Validate_def NewConfig_def Second_def)

lemma ensureInitialized_eq:
  "ensureInitialized w =
     (if isInitialized w then w else w\<lparr>config := NewConfig (30 * Second), isInitialized := True\<rparr>)"
  by (simp add: ensureInitialized_def Init_def Validate_NewConfig)

lemma ensureInitialized_frame:
  "heap (ensureInitialized w) = heap w" "trace (ensureInitialized w) = trace w"
  "next_ref (ensureInitialized w) = next_ref w" "calls (ensureInitialized w) = calls w"
  "isInitialized (ensureInitialized w)"
  by (simp_all add: ensureInitialized_eq)

lemma ensureInitialized_idem: "ensureInitialized (ensureInitialized w) = ensureInitialized w"
  by (simp add: ensureInitialized_eq)

lemma executeRequest_events:
  assumes "\<forall>r. body = Some r \<longrightarrow> content r = p \<and> remaining r = p"
  shows "(\<forall>ev \<in> set (new_events w (snd (executeRequest env m d u body p h w))).
            attempt_event m u (headers_of w h) (map_option (\<lambda>_. p) body) p ev)
       \<and> heap (snd (executeRequest env m d u body p h w)) = heap w"
proof -
  let ?w0 = "ensureInitialized w"
  have inv: "body_inv p 0 body" using assms by (simp add: body_inv_def)
  have hh: "headers_of ?w0 h = headers_of w h"
    by (rule headers_of_heap) (simp add: ensureInitialized_frame)
  from loop_events[OF _ inv, of env m d u h "int64_wrap (MaxRetries (RetryConfig (config ?w0)) + 1)"
      "''''" None ?w0]
  obtain evs where
    "trace (snd (executeRequest env m d u body p h w)) = trace w @ evs"
    "\<forall>ev \<in> set evs. attempt_event m u (headers_of w h) (map_option (\<lambda>_. p) body) p ev"
    "heap (snd (executeRequest env m d u body p h w)) = heap w"
    unfolding hh by (auto simp: executeRequest_def executeRequestWithRetry_def Let_def ensureInitialized_frame)
  then show ?thesis by (simp add: new_events_def)
qed

section \<open>Sanitization, the retry decision and the classification of an attempt\<close>

lemma occurs_in_code: "occurs_in sub s = strings_Contains s sub"
  by (simp add: occurs_in_def strings_Contains_iff)

lemma contains_fold_iff: "contains_fold name t \<longleftrightarrow> occurs_in t (ascii_ToLower name)"
proof
  assume "contains_fold name t"
  then obtain p s q where "name = p @ s @ q" "ascii_ToLower s = t"
    by (auto simp: contains_fold_def)
  then have "ascii_ToLower name = ascii_ToLower p @ t @ ascii_ToLower q"
    by (simp add: ascii_ToLower_def)
  then show "occurs_in t (ascii_ToLower name)"
    unfolding occurs_in_def by blast
next
  assume "occurs_in t (ascii_ToLower name)"
  then obtain p' q' where "map ToLower_byte name = p' @ (t @ q')"
    unfolding occurs_in_def ascii_ToLower_def by blast
  then obtain p r where 1: "name = p @ r" "map ToLower_byte r = t @ q'"
    by (metis map_eq_append_conv)
  then obtain s q where 2: "r = s @ q" "map ToLower_byte s = t"
    by (metis map_eq_append_conv)
  show "contains_fold name t"
    unfolding contains_fold_def ascii_ToLower_def using 1 2 by blast
qed

lemma is_sensitive_ascii:
  "is_sensitive ascii_ToLower name \<longleftrightarrow> (\<exists>t \<in> set sensitiveHeaders. contains_fold name t)"
  by (simp add: is_sensitive_def contains_fold_iff)

lemma utf8_characters_ascii:
  "\<forall>c \<in> set v. (of_char c :: nat) < 128 \<Longrightarrow> utf8_characters v = length v"
  by (induction v) (auto simp: utf8_characters_def)

lemma sanitizeHeaderValue_eq:
  "sanitizeHeaderValue strings_ToLower name v =
     (if is_sensitive strings_ToLower name
      then (if length v > 10 then take 10 v @ ''...'' else ''***'')
      else v)"
  unfolding sanitizeHeaderValue_def is_sensitive_def occurs_in_code
  using sanitize_loop_hit[of sensitiveHeaders "strings_ToLower name" v]
    sanitize_loop_miss[of sensitiveHeaders "strings_ToLower name" v]
  by auto

text \<open>
  Claim C8, amended. Whatever \<open>strings.ToLower\<close> computes: when the name in lower case
  contains one of the six terms of \<open>sensitiveHeaders\<close>, the logged value is the first 10
  bytes of the value followed by \<open>...\<close> if the value is longer than 10 bytes, and the
  fixed placeholder \<open>***\<close> (which does not depend on the value) otherwise; for any other
  name the value is logged as it is. Bytes are characters when the value is ASCII.
\<close>

theorem sanitizeHeaderValue_masks:
  "sanitizeHeaderValue strings_ToLower name v =
     (if is_sensitive strings_ToLower name
      then (if length v > 10 then take 10 v @ ''...'' else ''***'')
      else v)
   \<and> ((\<forall>c \<in> set v. (of_char c :: nat) < 128) \<longrightarrow> utf8_characters v = length v)"
  using sanitizeHeaderValue_eq[of strings_ToLower name v] utf8_characters_ascii[of v] by blast

lemmas eval_simps = ascii_ToLower_def ToLower_byte_def char_of_def bit_Suc_0_iff
  Sprintf_d_def decimal.simps sensitiveHeaders_def

theorem sanitizeHeaderValue_masks_witness:
  "is_sensitive ascii_ToLower ''Authorization''
   \<and> sanitizeHeaderValue ascii_ToLower ''Authorization'' ''Bearer abcdef1234567890''
       = ''Bearer abc...''
   \<and> utf8_characters ''Bearer abcdef1234567890'' = 23
   \<and> is_sensitive ascii_ToLower ''X-Api-Key''
   \<and> sanitizeHeaderValue ascii_ToLower ''X-Api-Key'' ''s3cret'' = ''***''
   \<and> \<not> is_sensitive ascii_ToLower ''Accept''
   \<and> sanitizeHeaderValue ascii_ToLower ''Accept'' ''text/html'' = ''text/html''"
  using sanitizeHeaderValue_masks[of ascii_ToLower "''Authorization''" "''Bearer abcdef1234567890''"]
    sanitizeHeaderValue_masks[of ascii_ToLower "''X-Api-Key''" "''s3cret''"]
    sanitizeHeaderValue_masks[of ascii_ToLower "''Accept''" "''text/html''"]
  by (simp add: is_sensitive_def occurs_in_code eval_simps)

text \<open>
  Claim C8 as stated fails for a value whose characters take more than one byte: six
  characters in twelve bytes, under a sensitive name, are not replaced by the placeholder
  but cut after ten bytes (five characters) and followed by \<open>...\<close>.
\<close>

theorem sanitizeHeaderValue_characters_counterexample:
  "utf8_characters six_accents = 6
   \<and> length six_accents = 12
   \<and> is_sensitive ascii_ToLower ''Authorization''
   \<and> sanitizeHeaderValue ascii_ToLower ''Authorization'' six_accents
       = [CHR 0xC3, CHR 0xA9, CHR 0xC3, CHR 0xA9, CHR 0xC3, CHR 0xA9, CHR 0xC3, CHR 0xA9,
          CHR 0xC3, CHR 0xA9] @ ''...''
   \<and> sanitizeHeaderValue ascii_ToLower ''Authorization'' six_accents \<noteq> ''***''"
  by (simp add: sanitizeHeaderValue_def is_sensitive_def occurs_in_code utf8_characters_def
      six_accents_def eval_simps)

lemma sanitizeHeaderValue_plain_short:
  "sanitizeHeaderValue_plain ascii_ToLower ''X-Api-Key'' ''s3cret'' = ''s3cret...''"
  by (simp add: sanitizeHeaderValue_plain_def eval_simps)

text \<open>
  Claim C2. \<open>shouldRetry\<close> holds exactly when the error is not nil and its message
  contains \<open>response code: N\<close> for a status \<open>N\<close> of \<open>RetryOnStatus\<close>, or one of the
  literal words \<open>connection\<close>, \<open>timeout\<close>, \<open>EOF\<close>; a nil error is never retried.
\<close>

theorem shouldRetry_decision:
  "(shouldRetry cfg err \<longleftrightarrow>
     (\<exists>e. err = Some e \<and>
        ((\<exists>n \<in> set (RetryOnStatus (RetryConfig cfg)).
             occurs_in (''response code: '' @ Sprintf_d n) (Error e))
         \<or> occurs_in ''connection'' (Error e) \<or> occurs_in ''timeout'' (Error e)
         \<or> occurs_in ''EOF'' (Error e))))
   \<and> \<not> shouldRetry cfg None"
  by (cases err) (simp_all add: shouldRetry_def retry_status_loop_iff strings_Contains_iff occurs_in_def)

theorem shouldRetry_decision_witness:
  "shouldRetry (NewConfig (30 * Second)) (Some (ErrorString ''received non-2xx response code: 503''))
   \<and> \<not> shouldRetry (NewConfig (30 * Second)) (Some (ErrorString ''received non-2xx response code: 429''))
   \<and> shouldRetry (NewConfig (30 * Second)) (Some (ErrorString ''unexpected EOF''))
   \<and> \<not> shouldRetry (NewConfig (30 * Second)) (Some (ErrorString ''Connection refused''))"
  using shouldRetry_decision[of "NewConfig (30 * Second)" "Some (ErrorString ''received non-2xx response code: 503'')"]
    shouldRetry_decision[of "NewConfig (30 * Second)" "Some (ErrorString ''received non-2xx response code: 429'')"]
    shouldRetry_decision[of "NewConfig (30 * Second)" "Some (ErrorString ''unexpected EOF'')"]
    shouldRetry_decision[of "NewConfig (30 * Second)" "Some (ErrorString ''Connection refused'')"]
  by (simp add: occurs_in_code NewConfig_def eval_simps)

text \<open>
  Claim C4. When the round trip and the reading of the body succeed, the attempt returns
  the response body with no error for a status in 200..299, and the response body
  together with the error \<open>received non-2xx response code: <status>\<close> for any other.
\<close>

theorem executeRequestOnce_classifies:
  assumes "outcome e = Response statusCode responseBody"
  shows "fst (executeRequestOnce e method description urlStr body payloadStr hdrs w) =
     (responseBody,
      if 200 \<le> statusCode \<and> statusCode \<le> 299 then None
      else Some (ErrorString (''received non-2xx response code: '' @ Sprintf_d statusCode)))"
  using assms by (simp add: executeRequestOnce_result attempt_result_def)

theorem executeRequestOnce_classifies_witness:
  "outcome (example_attempt (Response 404 ''not found'')) = Response 404 ''not found''
   \<and> fst (executeRequestOnce (example_attempt (Response 404 ''not found'')) ''GET'' ''get user''
        ''https://api.example.com/users/7'' None '''' None example_world)
     = (''not found'', Some (ErrorString ''received non-2xx response code: 404''))
   \<and> fst (executeRequestOnce (example_attempt (Response 204 '''')) ''GET'' ''get user''
        ''https://api.example.com/users/7'' None '''' None example_world)
     = ('''', None)"
  using executeRequestOnce_classifies[of "example_attempt (Response 404 ''not found'')" 404 "''not found''"
      "''GET''" "''get user''" "''https://api.example.com/users/7''" None "''''" None example_world]
    executeRequestOnce_classifies[of "example_attempt (Response 204 '''')" 204 "''''"
      "''GET''" "''get user''" "''https://api.example.com/users/7''" None "''''" None example_world]
  by (simp add: example_attempt_def eval_simps)

lemma Sprintf_d_value: "0 \<le> i \<Longrightarrow> decimal_value (Sprintf_d i) = nat i"
  by (simp add: Sprintf_d_def decimal_value_decimal)

section \<open>The number of attempts and the deadline\<close>

lemma retryable_503:
  "shouldRetry (config (retry_world_of n))
     (snd (attempt_result (Response 503 ''unavailable'')))"
  by (simp add: retry_world_of_def shouldRetry_def attempt_result_def NewConfig_def eval_simps)

lemma always_503_fails: "retryable_failure (config (retry_world_of n)) always_503 k"
  using retryable_503[of n]
  by (simp add: retryable_failure_def always_503_def example_attempt_def)

lemma executeRequestWithRetry_MaxInt64:
  assumes "MaxRetries (RetryConfig (config w)) = MaxInt64"
  shows "executeRequestWithRetry env m d u body p h w = (('''', None), w)"
proof -
  have "int64_wrap (MaxInt64 + 1) = - 9223372036854775808"
    by (simp add: int64_wrap_def MaxInt64_def)
  then show ?thesis
    using assms by (simp add: executeRequestWithRetry_def Let_def loop_exit)
qed

text \<open>
  Claim C1, at \<open>MaxRetries = MaxInt64\<close>: the configuration passes \<open>Validate\<close>, every
  attempt would end in a retryable 503, and yet \<open>MaxRetries + 1\<close> wraps to a negative
  \<open>maxAttempts\<close>: the loop is never entered, no attempt is made and the call returns
  the empty body with a nil error, whatever the environment (lemma
  \<open>executeRequestWithRetry_MaxInt64\<close>). For every smaller \<open>MaxRetries\<close> the claim holds:
  lemma \<open>executeRequestWithRetry_all_fail\<close>.
\<close>

theorem maxRetries_overflow_no_attempt:
  "Validate (config (retry_world_of MaxInt64)) = None
   \<and> MaxRetries (RetryConfig (config (retry_world_of MaxInt64))) = MaxInt64
   \<and> snd (attempt_result (outcome (always_503 0)))
       = Some (ErrorString ''received non-2xx response code: 503'')
   \<and> shouldRetry (config (retry_world_of MaxInt64)) (snd (attempt_result (outcome (always_503 0))))
   \<and> executeRequestWithRetry always_503 ''GET'' ''get users'' ''https://api.example.com/users''
         None '''' None (retry_world_of MaxInt64)
       = (('''', None), retry_world_of MaxInt64)"
proof -
  have "int64_wrap (MaxInt64 + 1) = - 9223372036854775808"
    by (simp add: int64_wrap_def MaxInt64_def)
  then have "executeRequestWithRetry always_503 ''GET'' ''get users'' ''https://api.example.com/users''
         None '''' None (retry_world_of MaxInt64) = (('''', None), retry_world_of MaxInt64)"
    by (simp add: executeRequestWithRetry_def Let_def loop_exit retry_world_of_def example_world_def)
  moreover have "Validate (config (retry_world_of MaxInt64)) = None"
    by (simp add: Validate_def retry_world_of_def example_world_def NewConfig_def Second_def MaxInt64_def)
  moreover have "snd (attempt_result (outcome (always_503 0)))
       = Some (ErrorString ''received non-2xx response code: 503'')"
    by (simp add: always_503_def example_attempt_def attempt_result_def eval_simps)
  ultimately show ?thesis
    using retryable_503[of MaxInt64]
    by (simp add: retry_world_of_def example_world_def always_503_def example_attempt_def)
qed

lemma executeRequestWithRetry_all_fail_example:
  "\<exists>w'. executeRequestWithRetry always_503 ''GET'' ''get users'' ''https://api.example.com/users''
         None '''' None (retry_world_of 3)
       = ((''unavailable'', Some (ErrorString ''received non-2xx response code: 503'')), w')
     \<and> calls w' = 4"
  using executeRequestWithRetry_all_fail[of "retry_world_of 3" 3 always_503 "''GET''" "''get users''"
      "''https://api.example.com/users''" None "''''" None] always_503_fails[of 3]
  by (simp add: retry_world_of_def example_world_def MaxInt64_def always_503_def example_attempt_def
      attempt_result_def eval_simps)

text \<open>
  Claim C3, amended. Let the attempts before \<open>k\<close> fail with retryable errors while the
  deadline holds. If the deadline wins the \<open>select\<close> before the retry \<open>k\<close>, the call
  returns the empty body and the context's error, and \<open>k\<close> attempts have been made. If
  the context is done after the attempt \<open>k\<close>, the call returns what that attempt
  returned (its body and its own error, whatever the retry decision would be), and
  \<open>k + 1\<close> attempts have been made. Either way no retry follows, however many remain.
\<close>

theorem deadline_is_terminal:
  assumes "MaxRetries (RetryConfig (config w)) = N" and "N < MaxInt64" and "0 \<le> k" and "k \<le> N"
    and "\<forall>j. 0 \<le> j \<and> j < k \<longrightarrow> retryable_failure (config w) env j"
  shows "(0 < k \<and> ctx_done_first (env k) = Some e \<longrightarrow>
            (\<exists>w'. executeRequestWithRetry env m d u body p h w = (('''', Some e), w')
                \<and> calls w' = calls w + nat k))
       \<and> ((0 < k \<longrightarrow> ctx_done_first (env k) = None) \<and> ctx_err_after (env k) = Some e \<longrightarrow>
            (\<exists>w'. executeRequestWithRetry env m d u body p h w
                   = (attempt_result (outcome (env k)), w')
                \<and> calls w' = calls w + nat k + 1))"
proof -
  have N0: "0 \<le> N" using assms(3,4) by simp
  have ma: "int64_wrap (MaxRetries (RetryConfig (config w)) + 1) = N + 1"
    using assms(1) maxAttempts_in_range[OF N0 assms(2)] by simp
  have kN: "k \<le> N + 1" and klt: "k < N + 1" using assms(4) by simp_all
  from loop_fail_prefix[of 0 k "N + 1" w env m d u p h body "''''" None, OF assms(3) kN]
  obtain body' rb' le' w1 where pre:
    "executeRequestWithRetry_loop env m d u p h (N + 1) 0 body '''' None w
       = executeRequestWithRetry_loop env m d u p h (N + 1) k body' rb' le' w1"
    "calls w1 = calls w + nat k" "config w1 = config w"
    using assms(5) by auto
  have run: "executeRequestWithRetry env m d u body p h w
       = executeRequestWithRetry_loop env m d u p h (N + 1) k body' rb' le' w1"
    using pre(1) by (simp add: executeRequestWithRetry_def ma Let_def)
  have a: "\<exists>w'. executeRequestWithRetry env m d u body p h w = (('''', Some e), w')
                \<and> calls w' = calls w + nat k"
    if "0 < k" "ctx_done_first (env k) = Some e"
    using run loop_ctx_done[of k "N + 1" env e m d u p h body' rb' le' w1] klt that pre(2)
    by simp
  have b: "\<exists>w'. executeRequestWithRetry env m d u body p h w
                   = (attempt_result (outcome (env k)), w')
                \<and> calls w' = calls w + nat k + 1"
    if nd: "0 < k \<longrightarrow> ctx_done_first (env k) = None" and after: "ctx_err_after (env k) = Some e"
  proof -
    obtain res body2 w2 where
      la: "loop_attempt env m d u p h (N + 1) k body' w1 = (res, body2, w2)"
      by (metis prod_cases3)
    note fr = loop_attempt_frame[OF la]
    have "executeRequestWithRetry_loop env m d u p h (N + 1) k body' rb' le' w1 = (res, w2)"
      unfolding loop_step[of k "N + 1" env m d u p h body' rb' le' w1, OF klt nd] la Let_def
      using after by simp
    then show ?thesis using run fr(5,6) pre(2) by simp
  qed
  show ?thesis using a b by blast
qed

theorem deadline_is_terminal_witness:
  "(\<exists>w'. executeRequestWithRetry deadline_in_wait ''GET'' ''get users''
           ''https://api.example.com/users'' None '''' None (retry_world_of 5)
         = (('''', Some DeadlineExceeded), w') \<and> calls w' = 3)
   \<and> (\<exists>w'. executeRequestWithRetry deadline_in_attempt ''GET'' ''get users''
           ''https://api.example.com/users'' None '''' None (retry_world_of 5)
         = ((''oops'', Some (ErrorString ''received non-2xx response code: 500'')), w')
         \<and> calls w' = 1)"
proof -
  have f: "\<forall>j. 0 \<le> j \<and> j < 3 \<longrightarrow> retryable_failure (config (retry_world_of 5)) deadline_in_wait j"
    using retryable_503[of 5]
    by (simp add: retryable_failure_def deadline_in_wait_def example_attempt_def)
  have N: "MaxRetries (RetryConfig (config (retry_world_of 5))) = 5" "(5::int) < MaxInt64"
    by (simp_all add: retry_world_of_def MaxInt64_def)
  have 1: "\<exists>w'. executeRequestWithRetry deadline_in_wait ''GET'' ''get users''
           ''https://api.example.com/users'' None '''' None (retry_world_of 5)
         = (('''', Some DeadlineExceeded), w') \<and> calls w' = 3"
    using deadline_is_terminal[OF N, of 3 deadline_in_wait DeadlineExceeded "''GET''" "''get users''"
        "''https://api.example.com/users''" None "''''" None] f
    by (simp add: deadline_in_wait_def example_attempt_def retry_world_of_def example_world_def)
  have f0: "\<forall>j. 0 \<le> j \<and> j < (0::int) \<longrightarrow>
      retryable_failure (config (retry_world_of 5)) deadline_in_attempt j"
    by auto
  have 2: "\<exists>w'. executeRequestWithRetry deadline_in_attempt ''GET'' ''get users''
           ''https://api.example.com/users'' None '''' None (retry_world_of 5)
         = ((''oops'', Some (ErrorString ''received non-2xx response code: 500'')), w')
         \<and> calls w' = 1"
    using deadline_is_terminal[OF N, of 0 deadline_in_attempt DeadlineExceeded "''GET''" "''get users''"
        "''https://api.example.com/users''" None "''''" None, OF _ _ f0]
    by (simp add: deadline_in_attempt_def example_attempt_def retry_world_of_def example_world_def
        attempt_result_def eval_simps)
  show ?thesis using 1 2 by blast
qed

text \<open>
  Claim C3 as stated fails: a deadline that fires during an attempt that ends in status
  500 makes the call return the attempt's error, not the context's.
\<close>

theorem deadline_error_counterexample:
  "ctx_err_after (deadline_in_attempt 0) = Some DeadlineExceeded
   \<and> fst (executeRequestWithRetry deadline_in_attempt ''GET'' ''get users''
           ''https://api.example.com/users'' None '''' None (retry_world_of 5))
       = (''oops'', Some (ErrorString ''received non-2xx response code: 500''))
   \<and> snd (fst (executeRequestWithRetry deadline_in_attempt ''GET'' ''get users''
           ''https://api.example.com/users'' None '''' None (retry_world_of 5)))
       \<noteq> Some DeadlineExceeded"
proof -
  have ma: "int64_wrap (MaxRetries (RetryConfig (config (retry_world_of 5))) + 1) = 6"
    by (simp add: retry_world_of_def int64_wrap_def)
  obtain res body2 w2 where
    la: "loop_attempt deadline_in_attempt ''GET'' ''get users'' ''https://api.example.com/users''
           '''' None 6 0 None (retry_world_of 5) = (res, body2, w2)"
    by (metis prod_cases3)
  have res: "res = (''oops'', Some (ErrorString ''received non-2xx response code: 500''))"
    using loop_attempt_frame(6)[OF la]
    by (simp add: deadline_in_attempt_def example_attempt_def attempt_result_def eval_simps)
  have "executeRequestWithRetry_loop deadline_in_attempt ''GET'' ''get users''
          ''https://api.example.com/users'' '''' None 6 0 None '''' None (retry_world_of 5) = (res, w2)"
    unfolding loop_step[of 0 6 deadline_in_attempt "''GET''" "''get users''"
        "''https://api.example.com/users''" "''''" None None "''''" None "retry_world_of 5", simplified]
      la Let_def
    by (simp add: deadline_in_attempt_def example_attempt_def)
  then show ?thesis
    using res by (simp add: executeRequestWithRetry_def ma Let_def deadline_in_attempt_def example_attempt_def)
qed

section \<open>The string variant\<close>

lemmas run_simps = executeRequest_def ensureInitialized_eq executeRequestWithRetry_def Let_def
  int64_wrap_def loop_step loop_attempt_def retry_body_def retry_world_def executeRequestOnce_def
  logRequest_def logResponseWithDuration_def LogError_def LogWarning_def headers_of_def
  example_world_def example_attempt_def NewConfig_def new_events_def ok_env_def

lemma attempt_event_Do:
  "attempt_event m u hs b p (Do_ev req)
     \<longleftrightarrow> req = \<lparr> req_method = m, req_url = u, req_header = hs, req_body = b \<rparr>"
  by (simp add: attempt_event_def)

lemma attempt_event_LogRequest:
  "attempt_event m u hs b p (LogRequest_ev d' m' u' hs' pl)
     \<longleftrightarrow> m' = m \<and> u' = u \<and> (pl = None \<or> pl = Some p)"
  by (simp add: attempt_event_def)

lemma body_method_not_query:
  "method \<in> {methodPOST, methodPUT, methodPATCH} \<Longrightarrow> \<not> isQueryParamMethod method"
  by (auto simp: isQueryParamMethod_def methodPOST_def methodPUT_def methodPATCH_def
      methodGET_def methodDELETE_def methodHEAD_def methodOPTIONS_def)

lemma query_method:
  "method \<in> {methodGET, methodDELETE, methodHEAD, methodOPTIONS} \<Longrightarrow> isQueryParamMethod method"
  by (auto simp: isQueryParamMethod_def)

lemma json_escape_plain: "json_plain c \<Longrightarrow> json_escape c = [c]"
  by (auto simp: json_plain_def json_escape_def)

lemma json_escape_not_plain: "\<not> json_plain c \<Longrightarrow> 2 \<le> length (json_escape c)"
  by (auto simp: json_plain_def json_escape_def)

lemma json_escape_length: "1 \<le> length (json_escape c)"
  by (simp add: json_escape_def)

lemma concat_escape_length: "length s \<le> length (concat (map json_escape s))"
proof (induction s)
  case Nil
  then show ?case by simp
next
  case (Cons c s)
  then show ?case using json_escape_length[of c] by simp
qed

lemma concat_escape_eq: "concat (map json_escape s) = s \<longleftrightarrow> (\<forall>c \<in> set s. json_plain c)"
proof (induction s)
  case Nil
  then show ?case by simp
next
  case (Cons c s)
  show ?case
  proof (cases "json_plain c")
    case True
    then show ?thesis using Cons by (simp add: json_escape_plain)
  next
    case False
    have "length (c # s) < length (concat (map json_escape (c # s)))"
      using json_escape_not_plain[OF False] concat_escape_length[of s] by simp
    then have "concat (map json_escape (c # s)) \<noteq> c # s"
      by (metis less_irrefl)
    then show ?thesis using False by simp
  qed
qed

lemma quoted_is_json_iff: "quoted payload = spec_json_string payload \<longleftrightarrow> (\<forall>c \<in> set payload. json_plain c)"
  using concat_escape_eq[of payload] by (auto simp: quoted_def spec_json_string_def)

lemma makeRequestWithString_body:
  assumes "url_Parse lib urlStr = Inr u" and "\<not> isQueryParamMethod method" and "payload \<noteq> ''''"
  shows "makeRequestWithString lib env method d urlStr payload h w
     = executeRequest env method d (URL_String lib u) (Some (BytesBuffer (quoted payload) 0))
         (quoted payload) h w"
  using assms by (simp add: makeRequestWithString_def quoted_def Let_def)

lemma makeRequestWithString_empty:
  assumes "url_Parse lib urlStr = Inr u"
  shows "makeRequestWithString lib env method d urlStr '''' h w
     = executeRequest env method d (URL_String lib u) None '''' h w"
  using assms by (simp add: makeRequestWithString_def)

text \<open>
  Claim C5, amended. For a non-empty payload sent through the string variant of POST, PUT
  or PATCH, the body handed to the pipeline, and the body of every request sent, is the
  payload between two quotation marks, with nothing escaped. It is the JSON encoding of
  the payload as a string exactly when no byte of the payload is a quotation mark, a
  backslash or a control character.
\<close>

theorem makeRequestWithString_quotes:
  assumes "url_Parse lib urlStr = Inr u" and "method \<in> {methodPOST, methodPUT, methodPATCH}"
    and "payload \<noteq> ''''"
  shows "makeRequestWithString lib env method d urlStr payload h w
           = executeRequest env method d (URL_String lib u)
               (Some (BytesBuffer (quoted payload) 0)) (quoted payload) h w
       \<and> (\<forall>req. Do_ev req \<in> set (new_events w
               (snd (makeRequestWithString lib env method d urlStr payload h w)))
             \<longrightarrow> req_body req = Some ([CHR 0x22] @ payload @ [CHR 0x22]))
       \<and> ([CHR 0x22] @ payload @ [CHR 0x22] = spec_json_string payload
            \<longleftrightarrow> (\<forall>c \<in> set payload. json_plain c))"
proof -
  note eq = makeRequestWithString_body[OF assms(1) body_method_not_query[OF assms(2)] assms(3)]
  have ev: "\<forall>ev \<in> set (new_events w (snd (makeRequestWithString lib env method d urlStr payload h w))).
      attempt_event method (URL_String lib u) (headers_of w h) (Some (quoted payload)) (quoted payload) ev"
    unfolding eq
    using executeRequest_events[of "Some (BytesBuffer (quoted payload) 0)" "quoted payload"
        w env "method" d "URL_String lib u" h]
    by simp
  have "\<forall>req. Do_ev req \<in> set (new_events w
               (snd (makeRequestWithString lib env method d urlStr payload h w)))
             \<longrightarrow> req_body req = Some (quoted payload)"
    using ev by (auto simp: attempt_event_Do)
  then show ?thesis
    using eq quoted_is_json_iff[of payload] by (simp add: quoted_def)
qed

theorem makeRequestWithString_quotes_witness:
  "Do_ev \<lparr> req_method = ''POST'', req_url = ''https://api.example.com/hook'',
           req_header = Map.empty, req_body = Some [CHR 0x22, CHR ''h'', CHR ''i'', CHR 0x22] \<rparr>
     \<in> set (new_events example_world
         (snd (makeRequestWithString example_lib ok_env methodPOST ''send''
                 ''https://api.example.com/hook'' ''hi'' None example_world)))
   \<and> [CHR 0x22, CHR ''h'', CHR ''i'', CHR 0x22] = spec_json_string ''hi''"
  using makeRequestWithString_quotes[of example_lib "''https://api.example.com/hook''"
      "\<lparr> Scheme = '''', Host = '''', Path = ''https://api.example.com/hook'', RawQuery = '''', Fragment = '''' \<rparr>"
      methodPOST "''hi''" ok_env "''send''" None example_world]
  by (simp add: example_lib_def methodPOST_def quoted_def run_simps json_plain_def)

text \<open>
  Claim C5 as stated fails for a payload with a quotation mark: \<open>a"b\<close> is sent as
  \<open>"a"b"\<close>, and its JSON encoding is \<open>"a\"b"\<close>.
\<close>

theorem makeRequestWithString_quotes_counterexample:
  "Do_ev \<lparr> req_method = ''POST'', req_url = ''https://api.example.com/hook'',
           req_header = Map.empty,
           req_body = Some [CHR 0x22, CHR ''a'', CHR 0x22, CHR ''b'', CHR 0x22] \<rparr>
     \<in> set (new_events example_world
         (snd (makeRequestWithString example_lib ok_env methodPOST ''send''
                 ''https://api.example.com/hook'' [CHR ''a'', CHR 0x22, CHR ''b''] None example_world)))
   \<and> spec_json_string [CHR ''a'', CHR 0x22, CHR ''b'']
       = [CHR 0x22, CHR ''a'', CHR 0x5C, CHR 0x22, CHR ''b'', CHR 0x22]
   \<and> [CHR 0x22, CHR ''a'', CHR 0x22, CHR ''b'', CHR 0x22]
       \<noteq> spec_json_string [CHR ''a'', CHR 0x22, CHR ''b'']"
  by (simp add: makeRequestWithString_def isQueryParamMethod_def example_lib_def methodPOST_def
      methodGET_def methodDELETE_def methodHEAD_def methodOPTIONS_def run_simps
      spec_json_string_def json_escape_def)

text \<open>
  Claim C10. With the empty string as payload, the string variant of POST, PUT or PATCH
  hands the pipeline a nil body reader and the empty payload string: every request sent
  has no body (not the two quotation marks), and a logged payload is the empty string.
\<close>

theorem makeRequestWithString_empty_payload:
  assumes "url_Parse lib urlStr = Inr u" and "method \<in> {methodPOST, methodPUT, methodPATCH}"
  shows "makeRequestWithString lib env method d urlStr '''' h w
           = executeRequest env method d (URL_String lib u) None '''' h w
       \<and> (\<forall>req. Do_ev req \<in> set (new_events w
               (snd (makeRequestWithString lib env method d urlStr '''' h w)))
             \<longrightarrow> req_body req = None)
       \<and> (\<forall>d' m' u' hs pl. LogRequest_ev d' m' u' hs pl \<in> set (new_events w
               (snd (makeRequestWithString lib env method d urlStr '''' h w)))
             \<longrightarrow> pl = None \<or> pl = Some '''')"
proof -
  note eq = makeRequestWithString_empty[OF assms(1)]
  have ev: "\<forall>ev \<in> set (new_events w (snd (makeRequestWithString lib env method d urlStr '''' h w))).
      attempt_event method (URL_String lib u) (headers_of w h) None '''' ev"
    unfolding eq
    using executeRequest_events[of None "''''" w env "method" d "URL_String lib u" h]
    by simp
  show ?thesis
    using eq ev by (auto simp: attempt_event_Do attempt_event_LogRequest)
qed

theorem makeRequestWithString_empty_payload_witness:
  "makeRequestWithString example_lib ok_env methodPUT ''send'' ''https://api.example.com/hook''
       '''' None example_world
     = executeRequest ok_env methodPUT ''send'' ''https://api.example.com/hook'' None '''' None
         example_world
   \<and> new_events example_world
         (snd (makeRequestWithString example_lib ok_env methodPUT ''send''
                 ''https://api.example.com/hook'' '''' None example_world))
     = [LogRequest_ev ''send'' ''PUT'' ''https://api.example.com/hook'' None (Some ''''),
        Do_ev \<lparr> req_method = ''PUT'', req_url = ''https://api.example.com/hook'',
                req_header = Map.empty, req_body = None \<rparr>,
        LogResponse_ev ''send'' 200 (Some ''ok'')]"
  using makeRequestWithString_empty_payload[of example_lib "''https://api.example.com/hook''"
      "\<lparr> Scheme = '''', Host = '''', Path = ''https://api.example.com/hook'', RawQuery = '''', Fragment = '''' \<rparr>"
      methodPUT ok_env "''send''" None example_world]
  by (simp add: example_lib_def methodPUT_def run_simps)

section \<open>Query parameters\<close>

lemma fold_Values_Set:
  "distinct (map fst entries) \<Longrightarrow>
   fold (\<lambda>(key, v) q. Values_Set key (sp v) q) entries q0 = query_values sp entries q0"
proof (induction entries arbitrary: q0)
  case Nil
  then show ?case by (simp add: query_values_def)
next
  case (Cons e entries)
  obtain k v where e: "e = (k, v)" by (cases e)
  have notin: "map_of entries k = None"
    using Cons.prems e by (simp add: map_of_eq_None_iff)
  have "fold (\<lambda>(key, v) q. Values_Set key (sp v) q) (e # entries) q0
      = fold (\<lambda>(key, v) q. Values_Set key (sp v) q) entries (Values_Set k (sp v) q0)"
    by (simp add: e)
  also have "\<dots> = query_values sp entries (Values_Set k (sp v) q0)"
    by (rule Cons.IH) (use Cons.prems in simp)
  also have "\<dots> = query_values sp (e # entries) q0"
    using notin e by (auto simp: query_values_def Values_Set_def fun_eq_iff split: option.splits)
  finally show ?case .
qed

lemma query_values_entry:
  "distinct (map fst entries) \<Longrightarrow> (key, v) \<in> set entries \<Longrightarrow>
   query_values sp entries q0 key = Some [sp v]"
  by (simp add: query_values_def)

lemma query_values_other:
  "key \<notin> fst ` set entries \<Longrightarrow> query_values sp entries q0 key = q0 key"
  using map_of_eq_None_iff[of entries key] by (simp add: query_values_def)

lemma query_values_perm:
  "distinct (map fst entries) \<Longrightarrow> distinct (map fst entries') \<Longrightarrow> set entries' = set entries \<Longrightarrow>
   query_values sp entries' q0 = query_values sp entries q0"
  using map_of_inject_set[of entries' entries] by (simp add: query_values_def)

lemma makeRequest_query:
  assumes "url_Parse lib urlStr = Inr u" and "isQueryParamMethod method"
    and "distinct (map fst entries)"
  shows "makeRequest lib fmt_Sprint json_Marshal env method d urlStr (Some entries) h w
     = executeRequest env method d
         (URL_String lib (u\<lparr>RawQuery := Values_Encode lib
             (query_values fmt_Sprint entries (URL_Query lib u))\<rparr>)) None '''' h w"
  using assms by (simp add: makeRequest_def Let_def fold_Values_Set)

text \<open>
  Claim C7. For GET, DELETE, HEAD and OPTIONS with a payload map: the query of the request
  URL is the encoding of the parameter set in which every key of the payload has the one
  value \<open>fmt.Sprint\<close> prints for it (the other parameters being those the URL had); this
  set, and so the request, does not depend on the order in which the map is visited; and
  the pipeline gets a nil body reader, so no request sent has a body.
\<close>

theorem makeRequest_query_parameters:
  assumes "url_Parse lib urlStr = Inr u"
    and "method \<in> {methodGET, methodDELETE, methodHEAD, methodOPTIONS}"
    and "distinct (map fst entries)"
  shows "makeRequest lib fmt_Sprint json_Marshal env method d urlStr (Some entries) h w
           = executeRequest env method d
               (URL_String lib (u\<lparr>RawQuery := Values_Encode lib
                   (query_values fmt_Sprint entries (URL_Query lib u))\<rparr>)) None '''' h w
       \<and> (\<forall>(key, v) \<in> set entries.
             query_values fmt_Sprint entries (URL_Query lib u) key = Some [fmt_Sprint v])
       \<and> (\<forall>key. key \<notin> fst ` set entries \<longrightarrow>
             query_values fmt_Sprint entries (URL_Query lib u) key = URL_Query lib u key)
       \<and> (\<forall>entries'. distinct (map fst entries') \<and> set entries' = set entries \<longrightarrow>
             makeRequest lib fmt_Sprint json_Marshal env method d urlStr (Some entries') h w
               = makeRequest lib fmt_Sprint json_Marshal env method d urlStr (Some entries) h w)
       \<and> (\<forall>req. Do_ev req \<in> set (new_events w
               (snd (makeRequest lib fmt_Sprint json_Marshal env method d urlStr (Some entries) h w)))
             \<longrightarrow> req_body req = None
               \<and> req_url req = URL_String lib (u\<lparr>RawQuery := Values_Encode lib
                   (query_values fmt_Sprint entries (URL_Query lib u))\<rparr>))"
proof -
  let ?target = "URL_String lib (u\<lparr>RawQuery := Values_Encode lib
                   (query_values fmt_Sprint entries (URL_Query lib u))\<rparr>)"
  note qm = query_method[OF assms(2)]
  note eq = makeRequest_query[OF assms(1) qm assms(3), of fmt_Sprint json_Marshal env d h w]
  have 2: "\<forall>(key, v) \<in> set entries.
             query_values fmt_Sprint entries (URL_Query lib u) key = Some [fmt_Sprint v]"
    using query_values_entry[OF assms(3)] by auto
  have 3: "\<forall>key. key \<notin> fst ` set entries \<longrightarrow>
             query_values fmt_Sprint entries (URL_Query lib u) key = URL_Query lib u key"
    using query_values_other by metis
  have 4: "\<forall>entries'. distinct (map fst entries') \<and> set entries' = set entries \<longrightarrow>
             makeRequest lib fmt_Sprint json_Marshal env method d urlStr (Some entries') h w
               = makeRequest lib fmt_Sprint json_Marshal env method d urlStr (Some entries) h w"
  proof (intro allI impI)
    fix entries' assume e': "distinct (map fst entries') \<and> set entries' = set entries"
    then have "query_values fmt_Sprint entries' (URL_Query lib u)
        = query_values fmt_Sprint entries (URL_Query lib u)"
      using query_values_perm[OF assms(3)] by blast
    then show "makeRequest lib fmt_Sprint json_Marshal env method d urlStr (Some entries') h w
        = makeRequest lib fmt_Sprint json_Marshal env method d urlStr (Some entries) h w"
      using eq makeRequest_query[OF assms(1) qm, of entries' fmt_Sprint json_Marshal env d h w] e'
      by simp
  qed
  have ev: "\<forall>ev \<in> set (new_events w
       (snd (makeRequest lib fmt_Sprint json_Marshal env method d urlStr (Some entries) h w))).
      attempt_event method ?target (headers_of w h) None '''' ev"
    unfolding eq
    using executeRequest_events[of None "''''" w env "method" d ?target h]
    by simp
  have 5: "\<forall>req. Do_ev req \<in> set (new_events w
               (snd (makeRequest lib fmt_Sprint json_Marshal env method d urlStr (Some entries) h w)))
             \<longrightarrow> req_body req = None \<and> req_url req = ?target"
    using ev by (auto simp: attempt_event_Do)
  show ?thesis using eq 2 3 4 5 by blast
qed

theorem makeRequest_query_parameters_witness:
  "new_events example_world
     (snd (makeRequest example_lib (\<lambda>v. v) (\<lambda>m. Inr ''{}'') ok_env methodGET ''list users''
             ''https://api.example.com/users'' (Some [(''page'', ''1''), (''limit'', ''10'')])
             None example_world))
     = [LogRequest_ev ''list users'' ''GET'' ''https://api.example.com/users?limit=10&page=1''
          None (Some ''''),
        Do_ev \<lparr> req_method = ''GET'', req_url = ''https://api.example.com/users?limit=10&page=1'',
                req_header = Map.empty, req_body = None \<rparr>,
        LogResponse_ev ''list users'' 200 (Some ''ok'')]
   \<and> makeRequest example_lib (\<lambda>v. v) (\<lambda>m. Inr ''{}'') ok_env methodGET ''list users''
        ''https://api.example.com/users'' (Some [(''limit'', ''10''), (''page'', ''1'')])
        None example_world
     = makeRequest example_lib (\<lambda>v. v) (\<lambda>m. Inr ''{}'') ok_env methodGET ''list users''
        ''https://api.example.com/users'' (Some [(''page'', ''1''), (''limit'', ''10'')])
        None example_world"
proof -
  have p: "url_Parse example_lib ''https://api.example.com/users''
      = Inr \<lparr> Scheme = '''', Host = '''', Path = ''https://api.example.com/users'',
              RawQuery = '''', Fragment = '''' \<rparr>"
    by (simp add: example_lib_def)
  have m: "methodGET \<in> {methodGET, methodDELETE, methodHEAD, methodOPTIONS}" by simp
  have dist: "distinct (map fst [(''page'', ''1''), (''limit'', ''10'')])" by simp
  note inst = makeRequest_query_parameters[OF p m dist, of "\<lambda>v. v" "\<lambda>m. Inr ''{}''" ok_env
      "''list users''" None example_world]
  have perm: "distinct (map fst [(''limit'', ''10''), (''page'', ''1'')])
      \<and> set [(''limit'', ''10''), (''page'', ''1'')] = set [(''page'', ''1''), (''limit'', ''10'')]"
    by auto
  have 2: "makeRequest example_lib (\<lambda>v. v) (\<lambda>m. Inr ''{}'') ok_env methodGET ''list users''
        ''https://api.example.com/users'' (Some [(''limit'', ''10''), (''page'', ''1'')])
        None example_world
     = makeRequest example_lib (\<lambda>v. v) (\<lambda>m. Inr ''{}'') ok_env methodGET ''list users''
        ''https://api.example.com/users'' (Some [(''page'', ''1''), (''limit'', ''10'')])
        None example_world"
    using inst perm by blast
  have 1: "new_events example_world
     (snd (makeRequest example_lib (\<lambda>v. v) (\<lambda>m. Inr ''{}'') ok_env methodGET ''list users''
             ''https://api.example.com/users'' (Some [(''page'', ''1''), (''limit'', ''10'')])
             None example_world))
     = [LogRequest_ev ''list users'' ''GET'' ''https://api.example.com/users?limit=10&page=1''
          None (Some ''''),
        Do_ev \<lparr> req_method = ''GET'', req_url = ''https://api.example.com/users?limit=10&page=1'',
                req_header = Map.empty, req_body = None \<rparr>,
        LogResponse_ev ''list users'' 200 (Some ''ok'')]"
    using inst
    by (simp add: example_lib_def example_encode_def query_values_def URL_Query_def methodGET_def
        run_simps)
  show ?thesis using 1 2 by simp
qed

section \<open>The raw XML submission\<close>

lemma world_update_swap:
  "(v::world)\<lparr>next_ref := a, heap := b\<rparr> = v\<lparr>heap := b, next_ref := a\<rparr>"
  by (cases v) simp

lemma world_update_same_next:
  "next_ref v = n \<Longrightarrow> (v::world)\<lparr>heap := h, next_ref := n\<rparr> = v\<lparr>heap := h\<rparr>"
  by (cases v) simp

lemma MakeXMLPostRequest_exact:
  "MakeXMLPostRequest env d u x hdrs w
     = executeRequest env methodPOST d u (Some (BytesBuffer x 0)) x (Some (xml_headers_ref w hdrs))
         ((ensureInitialized w)
            \<lparr>heap := (heap w)(xml_headers_ref w hdrs := with_xml_content_type (headers_of w hdrs)),
             next_ref := (case hdrs of None \<Rightarrow> Suc (next_ref w) | Some r \<Rightarrow> next_ref w)\<rparr>)"
proof (cases hdrs)
  case None
  have "MakeXMLPostRequest env d u x None w
     = executeRequest env methodPOST d u (Some (BytesBuffer x 0)) x (Some (next_ref w))
         ((ensureInitialized w)
            \<lparr>next_ref := Suc (next_ref w),
             heap := (heap w)(next_ref w := [''Content-Type'' \<mapsto> ''text/xml; charset=UTF-8''])\<rparr>)"
    by (simp add: MakeXMLPostRequest_def Let_def ensureInitialized_frame)
  then show ?thesis
    unfolding world_update_swap using None
    by (simp add: xml_headers_ref_def with_xml_content_type_def headers_of_def)
next
  case (Some r)
  have triv: "(ensureInitialized w)\<lparr>heap := heap w, next_ref := next_ref w\<rparr> = ensureInitialized w"
    using ensureInitialized_frame(1,3)[of w] by (cases "ensureInitialized w") simp
  show ?thesis
  proof (cases "heap w r ''Content-Type'' = None")
    case True
    then show ?thesis
      using Some
      by (simp add: MakeXMLPostRequest_def Let_def xml_headers_ref_def with_xml_content_type_def
          headers_of_def ensureInitialized_frame world_update_same_next)
  next
    case False
    then obtain y where y: "heap w r ''Content-Type'' = Some y" by auto
    show ?thesis
      using Some
      by (simp add: MakeXMLPostRequest_def Let_def xml_headers_ref_def with_xml_content_type_def
          headers_of_def ensureInitialized_frame y triv)
  qed
qed

lemma MakeXMLPostRequest_pipeline:
  "\<exists>w0. MakeXMLPostRequest env d u x hdrs w
          = executeRequest env methodPOST d u (Some (BytesBuffer x 0)) x
              (Some (xml_headers_ref w hdrs)) w0
        \<and> heap w0 = (heap w)(xml_headers_ref w hdrs := with_xml_content_type (headers_of w hdrs))
        \<and> trace w0 = trace w"
  using MakeXMLPostRequest_exact[of env d u x hdrs w]
  by (metis (no_types, lifting) ensureInitialized_frame(2) world.select_convs(3,6)
      world.surjective world.update_convs(3,4))

text \<open>
  Claim C6, amended. \<open>MakeXMLPostRequest\<close> is one call of the common pipeline
  \<open>executeRequest\<close>, in the state of the package as it is (initialised by default if it
  was not), so that the retry loop and the logging run under the same configuration as
  for every other request. The method is POST, the payload itself is the body and the
  logged payload, byte for byte, on every attempt. The header
  \<open>Content-Type: text/xml; charset=UTF-8\<close> is added exactly when the caller's map has no
  entry under the exact key \<open>Content-Type\<close>; nothing else of the state changes before
  the pipeline runs. A caller whose initialised package already has the key gets
  precisely \<open>executeRequest\<close> on its own state.
\<close>

theorem MakeXMLPostRequest_sends_raw:
  "MakeXMLPostRequest env d u x hdrs w
     = executeRequest env methodPOST d u (Some (BytesBuffer x 0)) x (Some (xml_headers_ref w hdrs))
         ((ensureInitialized w)
            \<lparr>heap := (heap w)(xml_headers_ref w hdrs := with_xml_content_type (headers_of w hdrs)),
             next_ref := (case hdrs of None \<Rightarrow> Suc (next_ref w) | Some r \<Rightarrow> next_ref w)\<rparr>)
   \<and> (\<forall>r. hdrs = Some r \<and> isInitialized w \<and> heap w r ''Content-Type'' \<noteq> None \<longrightarrow>
         MakeXMLPostRequest env d u x hdrs w
           = executeRequest env methodPOST d u (Some (BytesBuffer x 0)) x (Some r) w)
   \<and> (\<forall>req. Do_ev req \<in> set (new_events w (snd (MakeXMLPostRequest env d u x hdrs w))) \<longrightarrow>
         req = \<lparr> req_method = methodPOST, req_url = u,
                 req_header = with_xml_content_type (headers_of w hdrs), req_body = Some x \<rparr>)
   \<and> (\<forall>d' m' u' hs pl. LogRequest_ev d' m' u' hs pl
           \<in> set (new_events w (snd (MakeXMLPostRequest env d u x hdrs w))) \<longrightarrow>
         pl = None \<or> pl = Some x)
   \<and> (headers_of w hdrs ''Content-Type'' = None \<longrightarrow>
         with_xml_content_type (headers_of w hdrs)
           = (headers_of w hdrs)(''Content-Type'' \<mapsto> ''text/xml; charset=UTF-8''))
   \<and> (headers_of w hdrs ''Content-Type'' \<noteq> None \<longrightarrow>
         with_xml_content_type (headers_of w hdrs) = headers_of w hdrs)"
proof -
  let ?r = "xml_headers_ref w hdrs"
  let ?hs = "with_xml_content_type (headers_of w hdrs)"
  note exact = MakeXMLPostRequest_exact[of env d u x hdrs w]
  obtain w0 where w0:
    "MakeXMLPostRequest env d u x hdrs w
       = executeRequest env methodPOST d u (Some (BytesBuffer x 0)) x (Some ?r) w0"
    "heap w0 = (heap w)(?r := ?hs)" "trace w0 = trace w"
    using MakeXMLPostRequest_pipeline by blast
  have hr: "headers_of w0 (Some ?r) = ?hs"
    using w0(2) by (simp add: headers_of_def)
  have ne: "new_events w (snd (MakeXMLPostRequest env d u x hdrs w))
      = new_events w0 (snd (executeRequest env methodPOST d u (Some (BytesBuffer x 0)) x (Some ?r) w0))"
    using w0(1,3) by (simp add: new_events_def)
  have ev: "\<forall>ev \<in> set (new_events w (snd (MakeXMLPostRequest env d u x hdrs w))).
      attempt_event methodPOST u ?hs (Some x) x ev"
    unfolding ne
    using executeRequest_events[of "Some (BytesBuffer x 0)" x w0 env methodPOST d u "Some ?r"] hr
    by simp
  have 1: "\<forall>r. hdrs = Some r \<and> isInitialized w \<and> heap w r ''Content-Type'' \<noteq> None \<longrightarrow>
         MakeXMLPostRequest env d u x hdrs w
           = executeRequest env methodPOST d u (Some (BytesBuffer x 0)) x (Some r) w"
  proof (intro allI impI)
    fix r assume a: "hdrs = Some r \<and> isInitialized w \<and> heap w r ''Content-Type'' \<noteq> None"
    then have "ensureInitialized w = w" by (simp add: ensureInitialized_eq)
    moreover have "w\<lparr>heap := heap w, next_ref := next_ref w\<rparr> = w" by (cases w) simp
    ultimately show "MakeXMLPostRequest env d u x hdrs w
           = executeRequest env methodPOST d u (Some (BytesBuffer x 0)) x (Some r) w"
      using exact a
      by (auto simp: xml_headers_ref_def with_xml_content_type_def headers_of_def)
  qed
  have 2: "\<forall>req. Do_ev req \<in> set (new_events w (snd (MakeXMLPostRequest env d u x hdrs w))) \<longrightarrow>
         req = \<lparr> req_method = methodPOST, req_url = u, req_header = ?hs, req_body = Some x \<rparr>"
    using ev by (auto simp: attempt_event_Do)
  have 3: "\<forall>d' m' u' hs pl. LogRequest_ev d' m' u' hs pl
           \<in> set (new_events w (snd (MakeXMLPostRequest env d u x hdrs w))) \<longrightarrow>
         pl = None \<or> pl = Some x"
    using ev by (auto simp: attempt_event_LogRequest)
  have 4: "(headers_of w hdrs ''Content-Type'' = None \<longrightarrow>
         ?hs = (headers_of w hdrs)(''Content-Type'' \<mapsto> ''text/xml; charset=UTF-8''))
      \<and> (headers_of w hdrs ''Content-Type'' \<noteq> None \<longrightarrow> ?hs = headers_of w hdrs)"
    by (simp add: with_xml_content_type_def)
  show ?thesis
    using exact 1 2 3 4 by blast
qed

theorem MakeXMLPostRequest_sends_raw_witness:
  "Do_ev \<lparr> req_method = ''POST'', req_url = ''https://soap.example.com/ws'',
           req_header = [''Content-Type'' \<mapsto> ''text/xml; charset=UTF-8''],
           req_body = Some ''<a>1</a>'' \<rparr>
     \<in> set (new_events example_world
         (snd (MakeXMLPostRequest ok_env ''soap call'' ''https://soap.example.com/ws'' ''<a>1</a>''
             None example_world)))
   \<and> Do_ev \<lparr> req_method = ''POST'', req_url = ''https://soap.example.com/ws'',
             req_header = [''Accept'' \<mapsto> ''application/xml'',
                           ''Content-Type'' \<mapsto> ''text/xml; charset=UTF-8''],
             req_body = Some ''<a>1</a>'' \<rparr>
     \<in> set (new_events accept_world
         (snd (MakeXMLPostRequest ok_env ''soap call'' ''https://soap.example.com/ws'' ''<a>1</a>''
             (Some 0) accept_world)))
   \<and> with_xml_content_type (headers_of accept_world (Some 0))
       = [''Accept'' \<mapsto> ''application/xml'', ''Content-Type'' \<mapsto> ''text/xml; charset=UTF-8'']
   \<and> (\<exists>w'. MakeXMLPostRequest always_503 ''soap call'' ''https://soap.example.com/ws'' ''<a>1</a>''
             None (retry_world_of 3)
           = ((''unavailable'', Some (ErrorString ''received non-2xx response code: 503'')), w')
         \<and> calls w' = 4)"
proof -
  have 1: "Do_ev \<lparr> req_method = ''POST'', req_url = ''https://soap.example.com/ws'',
           req_header = [''Content-Type'' \<mapsto> ''text/xml; charset=UTF-8''],
           req_body = Some ''<a>1</a>'' \<rparr>
     \<in> set (new_events example_world
         (snd (MakeXMLPostRequest ok_env ''soap call'' ''https://soap.example.com/ws'' ''<a>1</a>''
             None example_world)))"
    by (simp add: MakeXMLPostRequest_def methodPOST_def run_simps)
  have 2: "Do_ev \<lparr> req_method = ''POST'', req_url = ''https://soap.example.com/ws'',
             req_header = [''Accept'' \<mapsto> ''application/xml'',
                           ''Content-Type'' \<mapsto> ''text/xml; charset=UTF-8''],
             req_body = Some ''<a>1</a>'' \<rparr>
     \<in> set (new_events accept_world
         (snd (MakeXMLPostRequest ok_env ''soap call'' ''https://soap.example.com/ws'' ''<a>1</a>''
             (Some 0) accept_world)))"
    by (simp add: MakeXMLPostRequest_def methodPOST_def run_simps accept_world_def)
  have none: "headers_of accept_world (Some 0) ''Content-Type'' = None"
    by (simp add: headers_of_def accept_world_def)
  have "with_xml_content_type (headers_of accept_world (Some 0))
      = (headers_of accept_world (Some 0))(''Content-Type'' \<mapsto> ''text/xml; charset=UTF-8'')"
    using MakeXMLPostRequest_sends_raw[of ok_env "''soap call''" "''https://soap.example.com/ws''"
        "''<a>1</a>''" "Some 0" accept_world] none
    by blast
  then have 3: "with_xml_content_type (headers_of accept_world (Some 0))
       = [''Accept'' \<mapsto> ''application/xml'', ''Content-Type'' \<mapsto> ''text/xml; charset=UTF-8'']"
    by (simp add: headers_of_def accept_world_def)
  let ?W = "(ensureInitialized (retry_world_of 3))
            \<lparr>heap := (heap (retry_world_of 3))(xml_headers_ref (retry_world_of 3) None
                        := with_xml_content_type (headers_of (retry_world_of 3) None)),
             next_ref := (case None :: ref option of None \<Rightarrow> Suc (next_ref (retry_world_of 3))
                          | Some r \<Rightarrow> next_ref (retry_world_of 3))\<rparr>"
  have eq: "MakeXMLPostRequest always_503 ''soap call'' ''https://soap.example.com/ws'' ''<a>1</a>''
             None (retry_world_of 3)
      = executeRequest always_503 methodPOST ''soap call'' ''https://soap.example.com/ws''
          (Some (BytesBuffer ''<a>1</a>'' 0)) ''<a>1</a>''
          (Some (xml_headers_ref (retry_world_of 3) None)) ?W"
    using MakeXMLPostRequest_sends_raw[of always_503 "''soap call''" "''https://soap.example.com/ws''"
        "''<a>1</a>''" None "retry_world_of 3"]
    by (rule conjunct1)
  have W: "ensureInitialized ?W = ?W" "config ?W = config (retry_world_of 3)" "calls ?W = 0"
    by (simp_all add: ensureInitialized_eq retry_world_of_def example_world_def)
  have N: "MaxRetries (RetryConfig (config ?W)) = 3" "(0::int) \<le> 3" "(3::int) < MaxInt64"
    unfolding W(2) by (simp_all add: retry_world_of_def MaxInt64_def)
  have fails: "\<forall>k. 0 \<le> k \<and> k \<le> 3 \<longrightarrow> retryable_failure (config ?W) always_503 k"
    unfolding W(2) using always_503_fails[of 3] by simp
  from executeRequestWithRetry_all_fail[OF N fails, of methodPOST "''soap call''"
      "''https://soap.example.com/ws''" "Some (BytesBuffer ''<a>1</a>'' 0)" "''<a>1</a>''"
      "Some (xml_headers_ref (retry_world_of 3) None)"]
  obtain w' where w': "executeRequestWithRetry always_503 methodPOST ''soap call''
        ''https://soap.example.com/ws'' (Some (BytesBuffer ''<a>1</a>'' 0)) ''<a>1</a>''
        (Some (xml_headers_ref (retry_world_of 3) None)) ?W
      = (attempt_result (outcome (always_503 3)), w')" "calls w' = calls ?W + nat 3 + 1"
    by blast
  have res: "attempt_result (outcome (always_503 3))
      = (''unavailable'', Some (ErrorString ''received non-2xx response code: 503''))"
    by (simp add: always_503_def example_attempt_def attempt_result_def eval_simps)
  have 4: "\<exists>w'. MakeXMLPostRequest always_503 ''soap call'' ''https://soap.example.com/ws'' ''<a>1</a>''
             None (retry_world_of 3)
           = ((''unavailable'', Some (ErrorString ''received non-2xx response code: 503'')), w')
         \<and> calls w' = 4"
    unfolding eq executeRequest_def W(1) w'(1) res using w'(2) W(3) by simp
  show ?thesis using 1 2 3 4 by blast
qed

text \<open>
  Claim C6 as stated fails for a caller who supplied the content type under the name
  \<open>content-type\<close>: the code finds no key \<open>Content-Type\<close> and adds the XML content type
  all the same, so the request is sent with both entries.
\<close>

theorem MakeXMLPostRequest_content_type_counterexample:
  "supplies_header (heap soap_world 0) ''Content-Type''
   \<and> Do_ev \<lparr> req_method = ''POST'', req_url = ''https://soap.example.com/ws'',
             req_header = [''content-type'' \<mapsto> ''application/soap+xml'',
                           ''Content-Type'' \<mapsto> ''text/xml; charset=UTF-8''],
             req_body = Some ''<a>1</a>'' \<rparr>
     \<in> set (new_events soap_world
         (snd (MakeXMLPostRequest ok_env ''soap call'' ''https://soap.example.com/ws'' ''<a>1</a>''
             (Some 0) soap_world)))"
proof -
  have "heap soap_world 0 ''content-type'' \<noteq> None \<and> header_name_eq ''content-type'' ''Content-Type''"
    by (simp add: soap_world_def header_name_eq_def eval_simps)
  then have 1: "supplies_header (heap soap_world 0) ''Content-Type''"
    unfolding supplies_header_def by blast
  have 2: "Do_ev \<lparr> req_method = ''POST'', req_url = ''https://soap.example.com/ws'',
             req_header = [''content-type'' \<mapsto> ''application/soap+xml'',
                           ''Content-Type'' \<mapsto> ''text/xml; charset=UTF-8''],
             req_body = Some ''<a>1</a>'' \<rparr>
     \<in> set (new_events soap_world
         (snd (MakeXMLPostRequest ok_env ''soap call'' ''https://soap.example.com/ws'' ''<a>1</a>''
             (Some 0) soap_world)))"
    by (simp add: MakeXMLPostRequest_def methodPOST_def run_simps soap_world_def)
  show ?thesis using 1 2 by blast
qed

text \<open>
  Claim C9. When the caller's header map is not nil and has no key \<open>Content-Type\<close>, the
  map the caller holds has, after the call, the key \<open>Content-Type\<close> with the value
  \<open>text/xml; charset=UTF-8\<close>; its other entries, and every other map of the store, are
  as they were.
\<close>

theorem MakeXMLPostRequest_mutates_headers:
  assumes "heap w r ''Content-Type'' = None"
  shows "heap (snd (MakeXMLPostRequest env d u x (Some r) w)) r
           = (heap w r)(''Content-Type'' \<mapsto> ''text/xml; charset=UTF-8'')
       \<and> (\<forall>key. key \<noteq> ''Content-Type'' \<longrightarrow>
             heap (snd (MakeXMLPostRequest env d u x (Some r) w)) r key = heap w r key)
       \<and> (\<forall>r'. r' \<noteq> r \<longrightarrow> heap (snd (MakeXMLPostRequest env d u x (Some r) w)) r' = heap w r')"
proof -
  obtain w0 where w0:
    "MakeXMLPostRequest env d u x (Some r) w
       = executeRequest env methodPOST d u (Some (BytesBuffer x 0)) x (Some r) w0"
    "heap w0 = (heap w)(r := with_xml_content_type (heap w r))"
    using MakeXMLPostRequest_pipeline[of env d u x "Some r" w]
    by (auto simp: xml_headers_ref_def headers_of_def)
  have "heap (snd (MakeXMLPostRequest env d u x (Some r) w)) = heap w0"
    unfolding w0(1)
    using executeRequest_events[of "Some (BytesBuffer x 0)" x w0 env methodPOST d u "Some r"]
    by simp
  then show ?thesis
    using w0(2) assms by (simp add: with_xml_content_type_def)
qed

theorem MakeXMLPostRequest_mutates_headers_witness:
  "heap accept_world 0 ''Content-Type'' = None
   \<and> heap (snd (MakeXMLPostRequest ok_env ''soap call'' ''https://soap.example.com/ws''
                 ''<a>1</a>'' (Some 0) accept_world)) 0
       = [''Accept'' \<mapsto> ''application/xml'', ''Content-Type'' \<mapsto> ''text/xml; charset=UTF-8'']
   \<and> heap (snd (MakeXMLPostRequest ok_env ''soap call'' ''https://soap.example.com/ws''
                 ''<a>1</a>'' (Some 0) accept_world)) 1 = Map.empty"
proof -
  have h: "heap accept_world 0 ''Content-Type'' = None"
    by (simp add: accept_world_def)
  show ?thesis
    using h MakeXMLPostRequest_mutates_headers[OF h, of ok_env "''soap call''"
        "''https://soap.example.com/ws''" "''<a>1</a>''"]
    by (simp add: accept_world_def)
qed

end
